theory Spec2Isabelle
  imports Complex_Main
begin

section \<open>Numbers and JavaScript values\<close>

text \<open>
  The pager of \<^verbatim>\<open>src/index.tsx\<close> computes with JavaScript numbers. They are modelled
  as mathematical reals (no rounding error, no NaN); the defaults
  \<^verbatim>\<open>minIndex = -Infinity\<close> and \<^verbatim>\<open>maxIndex = Infinity\<close> are the value \<open>None\<close>
  of an optional bound. Page indices (\<^verbatim>\<open>initialIndex\<close>, \<^verbatim>\<open>curIndex\<close>, the results
  of \<^verbatim>\<open>Math.round\<close>) are integers.
\<close>

text \<open>\<^verbatim>\<open>Math.round\<close>: the nearest integer, a tie going towards plus infinity.\<close>

definition js_round :: "real \<Rightarrow> int" where
  "js_round x = \<lfloor>x + 1 / 2\<rfloor>"

text \<open>
  A division whose divisor is zero gives an infinity or NaN in JavaScript, which the
  reals do not have (and HOL's \<open>x / 0\<close> is \<open>0\<close>): every division by a value that can
  be zero goes through \<open>js_div\<close>, and has no result in the model there.
\<close>

definition js_div :: "real \<Rightarrow> real \<Rightarrow> real option" where
  "js_div x y = (if y = 0 then None else Some (x / y))"

text \<open>
  The values whose truthiness the component tests: a boolean, or an object. A shared
  or derived value (\<^verbatim>\<open>useSharedValue\<close>, \<^verbatim>\<open>useDerivedValue\<close>) is an object
  holding its current \<^verbatim>\<open>.value\<close>; every object is truthy, whatever it holds.
\<close>

datatype jsval = JBool bool | JShared jsval | JUndefined

fun truthy :: "jsval \<Rightarrow> bool" where
  "truthy (JBool b) = b"
| "truthy (JShared v) = True"
| "truthy JUndefined = False"

text \<open>\<^verbatim>\<open>o.value\<close>: the held value of a shared value, \<^verbatim>\<open>undefined\<close> on a boolean.\<close>

fun dot_value :: "jsval \<Rightarrow> jsval" where
  "dot_value (JShared v) = v"
| "dot_value (JBool b) = JUndefined"
| "dot_value JUndefined = JUndefined"

text \<open>\<^verbatim>\<open>a || b\<close>: the left operand when it is truthy, the right one otherwise.\<close>

definition js_or :: "jsval \<Rightarrow> jsval \<Rightarrow> jsval" where
  "js_or a b = (if truthy a then a else b)"

section \<open>Data model\<close>

datatype orientation = Horizontal | Vertical

text \<open>
  A pager id is the string \<^verbatim>\<open>`${orientation}:${nestingDepth}:${Math.random()}`\<close>.
  None of the three parts contains a colon, so \<^verbatim>\<open>split(":")\<close> gives the parts
  back: the id is kept as the triple, \<^verbatim>\<open>v.split(":")[0]\<close> is \<open>pid_orientation\<close>
  and \<^verbatim>\<open>Number(v.split(":")[1])\<close> is \<open>pid_depth\<close>.
\<close>

datatype pager_id = PagerId (pid_orientation: orientation) (pid_depth: int) (pid_random: real)

text \<open>
  The props of \<^verbatim>\<open>InfinitePager\<close> that the modelled code reads, and what the context
  and \<^verbatim>\<open>Math.random\<close> supply (\<open>nestingDepth\<close>, \<open>randomDraw\<close>). An optional prop
  that is left out is \<open>None\<close>; an external shared value (\<open>syncNode\<close>,
  \<open>pageCallbackNode\<close>) is given by the number it holds when the pager mounts.
\<close>

record props =
  vertical :: bool
  pageBuffer :: int
  minIndex :: "real option"
  maxIndex :: "real option"
  gesturesDisabled :: bool
  flingVelocity :: real
  bouncePct :: real
  debugTag :: string
  width :: "real option"
  height :: "real option"
  initialIndex :: int
  syncNode :: "real option"
  pageCallbackNode :: "real option"
  nestingDepth :: int
  randomDraw :: real

text \<open>The defaults of the destructured props (lines 128-152), for a root pager.\<close>

definition default_props :: props where
  "default_props =
     \<lparr>vertical = False, pageBuffer = 1, minIndex = None, maxIndex = None,
      gesturesDisabled = False, flingVelocity = 500, bouncePct = 0, debugTag = [],
      width = None, height = None, initialIndex = 0, syncNode = None,
      pageCallbackNode = None, nestingDepth = 0, randomDraw = 0\<rparr>"

definition orientation_of :: "props \<Rightarrow> orientation" where
  "orientation_of p = (if vertical p then Vertical else Horizontal)"

definition pagerId :: "props \<Rightarrow> pager_id" where
  "pagerId p = PagerId (orientation_of p) (nestingDepth p) (randomDraw p)"

text \<open>
  The comparisons with the optional bounds, as the code writes them:
  \<^verbatim>\<open>x < minIndex\<close>, \<^verbatim>\<open>x <= minIndex\<close>, \<^verbatim>\<open>x >= minIndex\<close>,
  \<^verbatim>\<open>x > maxIndex\<close>, \<^verbatim>\<open>x >= maxIndex\<close>, \<^verbatim>\<open>x <= maxIndex\<close>.
\<close>

definition lt_minIndex :: "real \<Rightarrow> real option \<Rightarrow> bool" where
  "lt_minIndex x mn = (case mn of None \<Rightarrow> False | Some m \<Rightarrow> x < m)"

definition le_minIndex :: "real \<Rightarrow> real option \<Rightarrow> bool" where
  "le_minIndex x mn = (case mn of None \<Rightarrow> False | Some m \<Rightarrow> x \<le> m)"

definition ge_minIndex :: "real \<Rightarrow> real option \<Rightarrow> bool" where
  "ge_minIndex x mn = (case mn of None \<Rightarrow> True | Some m \<Rightarrow> m \<le> x)"

definition gt_maxIndex :: "real \<Rightarrow> real option \<Rightarrow> bool" where
  "gt_maxIndex x mx = (case mx of None \<Rightarrow> False | Some m \<Rightarrow> m < x)"

definition ge_maxIndex :: "real \<Rightarrow> real option \<Rightarrow> bool" where
  "ge_maxIndex x mx = (case mx of None \<Rightarrow> False | Some m \<Rightarrow> m \<le> x)"

definition le_maxIndex :: "real \<Rightarrow> real option \<Rightarrow> bool" where
  "le_maxIndex x mx = (case mx of None \<Rightarrow> True | Some m \<Rightarrow> x \<le> m)"

text \<open>
  The mutable state of one pager: its shared values, its React state \<open>curIndex\<close>,
  the registry's \<open>activePagers\<close> it shares with the other pagers of its tree, and
  what the handlers do to the outside: \<open>settle\<close> is the target of a running
  \<^verbatim>\<open>withSpring\<close> animation of \<open>translate\<close> (a plain assignment ends the animation),
  \<open>failed\<close> records \<^verbatim>\<open>mgr.fail()\<close>, \<open>prevRounded\<close> is the previous result the
  animated reaction has seen (\<open>None\<close> is \<^verbatim>\<open>null\<close>) and \<open>pageChanges\<close> the calls of
  \<^verbatim>\<open>onPageChangeInternal\<close>, oldest first.
\<close>

record pager_state =
  pageWidth :: real
  pageHeight :: real
  translate :: real
  settle :: "real option"
  curIndex :: int
  pageAnim :: real
  startTranslate :: real
  initTouchX :: real
  initTouchY :: real
  activePagers :: "pager_id list"
  failed :: bool
  prevRounded :: "int option"
  pageChanges :: "int list"

text \<open>
  The state after the first render (lines 157-179, 274, 295-296), in a registry
  whose active list is \<open>active\<close>: \<^verbatim>\<open>width || 0\<close> and \<^verbatim>\<open>height || 0\<close>,
  \<^verbatim>\<open>syncNode || _translate\<close>, \<^verbatim>\<open>pageCallbackNode || pageAnimInternal\<close>.
\<close>

definition mount :: "props \<Rightarrow> pager_id list \<Rightarrow> pager_state" where
  "mount p active =
     \<lparr>pageWidth = (case width p of None \<Rightarrow> 0 | Some w \<Rightarrow> w),
      pageHeight = (case height p of None \<Rightarrow> 0 | Some h \<Rightarrow> h),
      translate = (case syncNode p of None \<Rightarrow> 0 | Some t \<Rightarrow> t),
      settle = None,
      curIndex = initialIndex p,
      pageAnim = (case pageCallbackNode p of None \<Rightarrow> real_of_int (initialIndex p) | Some v \<Rightarrow> v),
      startTranslate = 0, initTouchX = 0, initTouchY = 0,
      activePagers = active, failed = False, prevRounded = None, pageChanges = []\<rparr>"

text \<open>The \<^verbatim>\<open>onLayout\<close> callback of the wrapper view (lines 523-527).\<close>

definition onLayout :: "real \<Rightarrow> real \<Rightarrow> pager_state \<Rightarrow> pager_state" where
  "onLayout layout_width layout_height s = s\<lparr>pageWidth := layout_width, pageHeight := layout_height\<rparr>"

definition pageSize :: "props \<Rightarrow> pager_state \<Rightarrow> real" where
  "pageSize p s = (if vertical p then pageHeight s else pageWidth s)"

section \<open>Imperative API and render window\<close>

text \<open>
  \<^verbatim>\<open>setPage\<close> (lines 210-229), from the point where the awaited layout promise has
  resolved to \<open>layoutPageSize\<close>; nothing runs before. \<open>animated\<close> is the truthiness of
  \<^verbatim>\<open>options.animated\<close>.
\<close>

definition setPage :: "props \<Rightarrow> real \<Rightarrow> real \<Rightarrow> bool \<Rightarrow> pager_state \<Rightarrow> pager_state" where
  "setPage p layoutPageSize index animated s =
     (let pSize = (if pageSize p s \<noteq> 0 then pageSize p s else layoutPageSize);
          updatedTranslate = index * pSize * (- 1) + real_of_int (initialIndex p) * pSize
      in if lt_minIndex index (minIndex p) \<or> gt_maxIndex index (maxIndex p) then s
         else if animated then s\<lparr>settle := Some updatedTranslate\<rparr>
         else s\<lparr>translate := updatedTranslate, settle := None\<rparr>)"

definition incrementPage :: "props \<Rightarrow> real \<Rightarrow> bool \<Rightarrow> pager_state \<Rightarrow> pager_state" where
  "incrementPage p layoutPageSize animated s =
     setPage p layoutPageSize (real_of_int (curIndex s + 1)) animated s"

definition decrementPage :: "props \<Rightarrow> real \<Rightarrow> bool \<Rightarrow> pager_state \<Rightarrow> pager_state" where
  "decrementPage p layoutPageSize animated s =
     setPage p layoutPageSize (real_of_int (curIndex s - 1)) animated s"

text \<open>
  \<^verbatim>\<open>pageIndices\<close> (lines 246-249): \<^verbatim>\<open>Array(n)\<close> throws a RangeError for a negative
  length (\<open>None\<close>); otherwise the callback runs for \<open>i = 0, ..., n - 1\<close>.
\<close>

definition pageIndices :: "props \<Rightarrow> pager_state \<Rightarrow> int list option" where
  "pageIndices p s =
     (if pageBuffer p * 2 + 1 < 0 then None
      else Some (map (\<lambda>i. let bufferIndex = i - pageBuffer p in curIndex s - bufferIndex)
                   [0 .. pageBuffer p * 2 + 1 - 1]))"

section \<open>Position store and commit loop\<close>

text \<open>The derived value of lines 251-255, run when one of its inputs has changed.\<close>

definition derive_pageAnim :: "props \<Rightarrow> pager_state \<Rightarrow> pager_state option" where
  "derive_pageAnim p s =
     (if pageSize p s \<noteq> 0
      then (case js_div (translate s) (pageSize p s) of
              None \<Rightarrow> None
            | Some q \<Rightarrow> Some (s\<lparr>pageAnim := real_of_int (initialIndex p) + q * (- 1)\<rparr>))
      else Some s)"

text \<open>\<^verbatim>\<open>onPageChangeInternal\<close> (lines 257-260) and the animated reaction (lines 262-272).\<close>

definition onPageChangeInternal :: "int \<Rightarrow> pager_state \<Rightarrow> pager_state" where
  "onPageChangeInternal pg s = s\<lparr>pageChanges := pageChanges s @ [pg], curIndex := pg\<rparr>"

definition reaction :: "pager_state \<Rightarrow> pager_state" where
  "reaction s =
     (let cur = js_round (pageAnim s);
          prev = prevRounded s;
          s' = (if Some cur \<noteq> prev then onPageChangeInternal cur s else s)
      in s'\<lparr>prevRounded := Some cur\<rparr>)"

text \<open>
  The reaction observing a sequence of page positions, one after the other, and
  the whole loop for a sequence of values of \<open>translate\<close>.
\<close>

fun observe :: "pager_state \<Rightarrow> real list \<Rightarrow> pager_state" where
  "observe s [] = s"
| "observe s (x # xs) = observe (reaction (s\<lparr>pageAnim := x\<rparr>)) xs"

fun drive :: "props \<Rightarrow> pager_state \<Rightarrow> real list \<Rightarrow> pager_state option" where
  "drive p s [] = Some s"
| "drive p s (t # ts) =
     (case derive_pageAnim p (s\<lparr>translate := t\<rparr>) of
        None \<Rightarrow> None
      | Some s' \<Rightarrow> drive p (reaction s') ts)"

text \<open>The derived values of a page wrapper with index \<open>index\<close> (lines 598-608).\<close>

definition translation :: "props \<Rightarrow> pager_state \<Rightarrow> int \<Rightarrow> real" where
  "translation p s index = (real_of_int index - pageAnim s) * pageSize p s"

definition focusAnim :: "props \<Rightarrow> pager_state \<Rightarrow> int \<Rightarrow> real option" where
  "focusAnim p s index =
     (if pageSize p s = 0 then Some (real_of_int (index - initialIndex p))
      else js_div (translation p s index) (pageSize p s))"

section \<open>Nesting arbitration\<close>

text \<open>
  \<^verbatim>\<open>isGestureLocked\<close> (lines 298-309): the active ids of the pager's own orientation
  must all have a depth of at most the pager's; the result
  \<^verbatim>\<open>activePagers.value.length && !isDeepestInOrientation\<close> is truthy when the
  length is not zero and the second operand is true.
\<close>

definition isDeepestInOrientation :: "props \<Rightarrow> pager_id list \<Rightarrow> bool" where
  "isDeepestInOrientation p active =
     list_all (\<lambda>v. pid_depth v \<le> nestingDepth p)
       (filter (\<lambda>v. pid_orientation v = orientation_of p) active)"

definition isGestureLocked :: "props \<Rightarrow> pager_id list \<Rightarrow> bool" where
  "isGestureLocked p active = (length active \<noteq> 0 \<and> \<not> isDeepestInOrientation p active)"

section \<open>Gesture handlers\<close>

text \<open>
  Lines 283-293. \<open>isMinIndex\<close> and \<open>isMaxIndex\<close> are derived values, that is objects
  holding a boolean. \<open>isAtEdge\<close> is \<^verbatim>\<open>isMinIndex || isMaxIndex\<close> of the two objects
  (not of their values), and \<open>isAtEdgeAnim\<close> is a derived value holding \<open>isAtEdge\<close>.
\<close>

definition isMinIndex :: "props \<Rightarrow> pager_state \<Rightarrow> jsval" where
  "isMinIndex p s = JShared (JBool (le_minIndex (real_of_int (curIndex s)) (minIndex p)))"

definition isMaxIndex :: "props \<Rightarrow> pager_state \<Rightarrow> jsval" where
  "isMaxIndex p s = JShared (JBool (ge_maxIndex (real_of_int (curIndex s)) (maxIndex p)))"

definition isAtEdge :: "props \<Rightarrow> pager_state \<Rightarrow> jsval" where
  "isAtEdge p s = js_or (isMinIndex p s) (isMaxIndex p s)"

definition isAtEdgeAnim :: "props \<Rightarrow> pager_state \<Rightarrow> jsval" where
  "isAtEdgeAnim p s = JShared (isAtEdge p s)"

text \<open>The fields of a pan event that the handlers read, and one touch of a touch event.\<close>

record pan_event =
  ev_x :: real
  ev_y :: real
  translationX :: real
  translationY :: real
  velocityX :: real
  velocityY :: real

record touch =
  touch_x :: real
  touch_y :: real

text \<open>\<^verbatim>\<open>onBegin\<close> (lines 314-327); the console output of a debug tag is not modelled.\<close>

definition onBegin :: "props \<Rightarrow> pan_event \<Rightarrow> pager_state \<Rightarrow> pager_state" where
  "onBegin p evt s =
     (let s1 = (if \<not> truthy (dot_value (isAtEdgeAnim p s))
                then s\<lparr>activePagers := activePagers s @ [pagerId p]\<rparr> else s)
      in s1\<lparr>startTranslate := translate s1, initTouchX := ev_x evt, initTouchY := ev_y evt\<rparr>)"

text \<open>
  \<^verbatim>\<open>onTouchesMove\<close> (lines 328-368). Reading \<^verbatim>\<open>changedTouches[0]\<close> of an event with
  no touch throws (\<open>None\<close>). \<^verbatim>\<open>!bouncePct\<close> holds for the number zero.
\<close>

definition swipingPastEnd :: "props \<Rightarrow> pager_state \<Rightarrow> real \<Rightarrow> bool" where
  "swipingPastEnd p s evtTranslate =
     ((truthy (dot_value (isMinIndex p s)) \<and> evtTranslate > 0) \<or>
      (truthy (dot_value (isMaxIndex p s)) \<and> evtTranslate < 0))"

definition shouldFailSelf :: "props \<Rightarrow> pager_state \<Rightarrow> real \<Rightarrow> bool" where
  "shouldFailSelf p s evtTranslate =
     ((bouncePct p = 0 \<and> swipingPastEnd p s evtTranslate) \<or>
      isGestureLocked p (activePagers s) \<or>
      gesturesDisabled p)"

definition onTouchesMove :: "props \<Rightarrow> touch list \<Rightarrow> pager_state \<Rightarrow> pager_state option" where
  "onTouchesMove p changedTouches s =
     (case changedTouches of
        [] \<Rightarrow> None
      | mainTouch # _ \<Rightarrow>
          (let evtVal = (if vertical p then touch_y mainTouch else touch_x mainTouch);
               initTouch = (if vertical p then initTouchY s else initTouchX s);
               evtTranslate = evtVal - initTouch
           in if shouldFailSelf p s evtTranslate then
                (let s1 = (if debugTag p \<noteq> []
                           then s\<lparr>activePagers := filter (\<lambda>pId. pId \<noteq> pagerId p) (activePagers s)\<rparr>
                           else s)
                 in Some (s1\<lparr>failed := True\<rparr>))
              else if pagerId p \<notin> set (activePagers s)
                then Some (s\<lparr>activePagers := activePagers s @ [pagerId p]\<rparr>)
                else Some s))"

text \<open>
  \<^verbatim>\<open>onUpdate\<close> (lines 369-407). The candidate translate and page are named as in the
  source. The page is a division by the page size, unguarded. An out-of-range page is
  below a finite \<open>minIndex\<close> or above a finite \<open>maxIndex\<close>, so that \<open>referenceVal\<close>
  is a number (lemma \<open>referenceVal_finite\<close>).
\<close>

definition pan_evtTranslate :: "props \<Rightarrow> pan_event \<Rightarrow> real" where
  "pan_evtTranslate p evt = (if vertical p then translationY evt else translationX evt)"

definition pan_crossAxisTranslate :: "props \<Rightarrow> pan_event \<Rightarrow> real" where
  "pan_crossAxisTranslate p evt = (if vertical p then translationX evt else translationY evt)"

definition update_isSwipingCrossAxis :: "props \<Rightarrow> pan_event \<Rightarrow> bool" where
  "update_isSwipingCrossAxis p evt =
     (\<bar>pan_crossAxisTranslate p evt\<bar> > 10 \<and>
      \<bar>pan_crossAxisTranslate p evt\<bar> > \<bar>pan_evtTranslate p evt\<bar>)"

definition update_rawVal :: "props \<Rightarrow> pan_event \<Rightarrow> pager_state \<Rightarrow> real" where
  "update_rawVal p evt s = startTranslate s + pan_evtTranslate p evt"

definition update_page :: "props \<Rightarrow> pan_event \<Rightarrow> pager_state \<Rightarrow> real option" where
  "update_page p evt s =
     (case js_div (- update_rawVal p evt s) (pageSize p s) of
        None \<Rightarrow> None
      | Some q \<Rightarrow> Some (real_of_int (initialIndex p) + q))"

definition referenceVal :: "props \<Rightarrow> real \<Rightarrow> real option" where
  "referenceVal p page = (if lt_minIndex page (minIndex p) then minIndex p else maxIndex p)"

definition onUpdate :: "props \<Rightarrow> pan_event \<Rightarrow> pager_state \<Rightarrow> pager_state option" where
  "onUpdate p evt s =
     (if isGestureLocked p (activePagers s) \<or> update_isSwipingCrossAxis p evt then Some s
      else
        (let rawVal = update_rawVal p evt s
         in case update_page p evt s of
              None \<Rightarrow> None
            | Some page \<Rightarrow>
                if ge_minIndex page (minIndex p) \<and> le_maxIndex page (maxIndex p)
                then Some (s\<lparr>translate := rawVal, settle := None\<rparr>)
                else
                  (case referenceVal p page of
                     None \<Rightarrow> None
                   | Some refVal \<Rightarrow>
                       (let pageOverflowPct = refVal - page;
                            overflowTrans = pageOverflowPct * pageSize p s;
                            maxBounceTrans = bouncePct p * pageSize p s;
                            bounceTrans = pageOverflowPct * maxBounceTrans;
                            clampedVal = rawVal - overflowTrans
                        in Some (s\<lparr>translate := clampedVal + bounceTrans, settle := None\<rparr>)))))"

text \<open>
  \<^verbatim>\<open>onEnd\<close> (lines 408-448): the fling test, the target page with its two clamping
  assignments, and the spring towards the target. The division by the page size is
  unguarded, as in \<open>onUpdate\<close>.
\<close>

definition end_evtVelocity :: "props \<Rightarrow> pan_event \<Rightarrow> real" where
  "end_evtVelocity p evt = (if vertical p then velocityY evt else velocityX evt)"

definition end_isSwipingCrossAxis :: "props \<Rightarrow> pan_event \<Rightarrow> bool" where
  "end_isSwipingCrossAxis p evt =
     (\<bar>pan_crossAxisTranslate p evt\<bar> > \<bar>pan_evtTranslate p evt\<bar>)"

definition isFling :: "props \<Rightarrow> pan_event \<Rightarrow> pager_state \<Rightarrow> bool" where
  "isFling p evt s =
     (if isGestureLocked p (activePagers s) \<or> end_isSwipingCrossAxis p evt then False
      else \<bar>end_evtVelocity p evt\<bar> > flingVelocity p)"

definition velocityModifier :: "props \<Rightarrow> pan_event \<Rightarrow> pager_state \<Rightarrow> real" where
  "velocityModifier p evt s =
     (let vm = (if isFling p evt s then pageSize p s / 2 else 0)
      in if end_evtVelocity p evt < 0 then vm * (- 1) else vm)"

definition end_page :: "props \<Rightarrow> pan_event \<Rightarrow> pager_state \<Rightarrow> real option" where
  "end_page p evt s =
     (case js_div (translate s + velocityModifier p evt s) (pageSize p s) of
        None \<Rightarrow> None
      | Some q \<Rightarrow>
          (let page = real_of_int (initialIndex p) + (- 1) * real_of_int (js_round q);
               page1 = (case minIndex p of None \<Rightarrow> page | Some m \<Rightarrow> if page < m then m else page);
               page2 = (case maxIndex p of None \<Rightarrow> page1 | Some m \<Rightarrow> if page1 > m then m else page1)
           in Some page2))"

definition onEnd :: "props \<Rightarrow> pan_event \<Rightarrow> pager_state \<Rightarrow> pager_state option" where
  "onEnd p evt s =
     (case end_page p evt s of
        None \<Rightarrow> None
      | Some page \<Rightarrow>
          Some (s\<lparr>settle := Some (- (page - real_of_int (initialIndex p)) * pageSize p s)\<rparr>))"

text \<open>\<^verbatim>\<open>onFinalize\<close> (lines 449-464).\<close>

definition onFinalize :: "props \<Rightarrow> pager_state \<Rightarrow> pager_state" where
  "onFinalize p s = s\<lparr>activePagers := filter (\<lambda>id. id \<noteq> pagerId p) (activePagers s)\<rparr>"

section \<open>Arbitration lock\<close>

lemma isDeepestInOrientation_iff:
  "isDeepestInOrientation p active =
     (\<not> (\<exists>v \<in> set active. pid_orientation v = orientation_of p \<and> nestingDepth p < pid_depth v))"
  by (auto simp: isDeepestInOrientation_def list_all_iff)

text \<open>
  C3. For a pager of orientation \<open>O\<close> and nesting depth \<open>D\<close> and any contents of
  \<open>activePagers\<close>, \<open>isGestureLocked\<close> is true exactly when \<open>activePagers\<close> is not
  empty and some active pager of orientation \<open>O\<close> has a depth greater than \<open>D\<close>.
  With a horizontal pager of depth 0 and a vertical pager of depth 1 both active,
  neither is locked; with two horizontal pagers of depths 0 and 1 both active, the
  one of depth 0 is locked and the one of depth 1 is not.
\<close>

theorem isGestureLocked_deeper_same_orientation:
  "(isGestureLocked p active =
      (active \<noteq> [] \<and>
       (\<exists>v \<in> set active. pid_orientation v = orientation_of p \<and> nestingDepth p < pid_depth v)))
   \<and> (\<forall>h w. \<not> vertical h \<and> nestingDepth h = 0 \<and> vertical w \<and> nestingDepth w = 1 \<longrightarrow>
         \<not> isGestureLocked h [pagerId h, pagerId w] \<and> \<not> isGestureLocked w [pagerId h, pagerId w])
   \<and> (\<forall>h k. \<not> vertical h \<and> nestingDepth h = 0 \<and> \<not> vertical k \<and> nestingDepth k = 1 \<longrightarrow>
         isGestureLocked h [pagerId h, pagerId k] \<and> \<not> isGestureLocked k [pagerId h, pagerId k])"
  by (auto simp: isGestureLocked_def isDeepestInOrientation_iff pagerId_def orientation_of_def)

theorem isGestureLocked_deeper_same_orientation_witness:
  "isGestureLocked default_props [pagerId default_props, pagerId (default_props\<lparr>nestingDepth := 1\<rparr>)]
   \<and> \<not> isGestureLocked (default_props\<lparr>nestingDepth := 1\<rparr>)
         [pagerId default_props, pagerId (default_props\<lparr>nestingDepth := 1\<rparr>)]
   \<and> \<not> isGestureLocked default_props
         [pagerId default_props, pagerId (default_props\<lparr>vertical := True, nestingDepth := 1\<rparr>)]
   \<and> \<not> isGestureLocked (default_props\<lparr>vertical := True, nestingDepth := 1\<rparr>)
         [pagerId default_props, pagerId (default_props\<lparr>vertical := True, nestingDepth := 1\<rparr>)]"
proof -
  let ?h = default_props
  let ?k = "default_props\<lparr>nestingDepth := 1\<rparr>"
  let ?w = "default_props\<lparr>vertical := True, nestingDepth := 1\<rparr>"
  note inst = isGestureLocked_deeper_same_orientation [of ?h "[]"]
  have hk: "\<not> vertical ?h \<and> nestingDepth ?h = 0 \<and> \<not> vertical ?k \<and> nestingDepth ?k = 1"
    by (simp add: default_props_def)
  have hw: "\<not> vertical ?h \<and> nestingDepth ?h = 0 \<and> vertical ?w \<and> nestingDepth ?w = 1"
    by (simp add: default_props_def)
  from inst hk have "isGestureLocked ?h [pagerId ?h, pagerId ?k] \<and> \<not> isGestureLocked ?k [pagerId ?h, pagerId ?k]"
    by blast
  moreover from inst hw have "\<not> isGestureLocked ?h [pagerId ?h, pagerId ?w] \<and> \<not> isGestureLocked ?w [pagerId ?h, pagerId ?w]"
    by blast
  ultimately show ?thesis by blast
qed

section \<open>Render window\<close>

lemma pageIndices_set_aux:
  "0 \<le> r \<Longrightarrow>
     set (map (\<lambda>i. let bufferIndex = i - r in c - bufferIndex) [0 .. r * 2 + 1 - 1]) = {c - r .. c + (r::int)}"
  apply (auto simp: Let_def image_iff)
  subgoal for x by (rule bexI[of _ "c + r - x"]) auto
  done

lemma pageIndices_distinct_aux:
  "distinct (map (\<lambda>i. let bufferIndex = i - r in c - bufferIndex) [0 .. r * 2 + 1 - (1::int)])"
  by (auto simp: Let_def distinct_map inj_on_def)

text \<open>
  C9. For a committed index \<open>c\<close> and a buffer radius \<open>r \<ge> 0\<close>, the render computes
  the page indices without an error, they are exactly the integers from \<open>c - r\<close> to
  \<open>c + r\<close>, each once (\<open>2r + 1\<close> of them), and a render with the same \<open>c\<close> and \<open>r\<close>
  computes the same indices, whatever else has changed.
\<close>

theorem pageIndices_window:
  "0 \<le> pageBuffer p \<Longrightarrow>
     (\<exists>ixs. pageIndices p s = Some ixs
        \<and> set ixs = {curIndex s - pageBuffer p .. curIndex s + pageBuffer p}
        \<and> distinct ixs
        \<and> length ixs = nat (2 * pageBuffer p + 1)
        \<and> card (set ixs) = nat (2 * pageBuffer p + 1))
     \<and> (\<forall>p' s'. pageBuffer p' = pageBuffer p \<and> curIndex s' = curIndex s
           \<longrightarrow> pageIndices p' s' = pageIndices p s)"
proof -
  assume r: "0 \<le> pageBuffer p"
  let ?ixs = "map (\<lambda>i. let bufferIndex = i - pageBuffer p in curIndex s - bufferIndex)
                [0 .. pageBuffer p * 2 + 1 - 1]"
  have 1: "pageIndices p s = Some ?ixs" using r by (simp add: pageIndices_def)
  have 2: "set ?ixs = {curIndex s - pageBuffer p .. curIndex s + pageBuffer p}"
    using r by (rule pageIndices_set_aux)
  have 3: "distinct ?ixs" by (rule pageIndices_distinct_aux)
  have 4: "length ?ixs = nat (2 * pageBuffer p + 1)" using r by simp
  have 5: "card (set ?ixs) = nat (2 * pageBuffer p + 1)"
    using 3 4 distinct_card by metis
  have 6: "\<forall>p' s'. pageBuffer p' = pageBuffer p \<and> curIndex s' = curIndex s
           \<longrightarrow> pageIndices p' s' = pageIndices p s"
    by (simp add: pageIndices_def)
  from 1 2 3 4 5 6 show ?thesis by blast
qed

theorem pageIndices_window_witness:
  "pageIndices (default_props\<lparr>pageBuffer := 2, initialIndex := 7\<rparr>)
       (mount (default_props\<lparr>pageBuffer := 2, initialIndex := 7\<rparr>) []) = Some [9, 8, 7, 6, 5]
   \<and> set [9, 8, 7, 6, 5] = {5 .. 9::int}
   \<and> pageIndices (default_props\<lparr>pageBuffer := 2, vertical := True\<rparr>)
         ((mount default_props [])\<lparr>curIndex := 7, translate := - 2100\<rparr>) = Some [9, 8, 7, 6, 5]"
  using pageIndices_window [of "default_props\<lparr>pageBuffer := 2, initialIndex := 7\<rparr>"
                               "mount (default_props\<lparr>pageBuffer := 2, initialIndex := 7\<rparr>) []"]
  by (simp add: default_props_def mount_def pageIndices_def upto.simps)

section \<open>Imperative API\<close>

text \<open>In range, a jump writes the translate of the requested page.\<close>

lemma setPage_in_range_writes:
  "\<not> lt_minIndex index (minIndex p) \<Longrightarrow> \<not> gt_maxIndex index (maxIndex p) \<Longrightarrow> pageSize p s \<noteq> 0 \<Longrightarrow>
   translate (setPage p l index False s) = (real_of_int (initialIndex p) - index) * pageSize p s"
  by (simp add: setPage_def Let_def algebra_simps)

text \<open>
  C8. For an index below a finite \<open>minIndex\<close> or above a finite \<open>maxIndex\<close>,
  \<open>setPage\<close> returns with the state as it was: the translate, a running settle
  animation and the committed index are unchanged. In particular \<open>setPage 10\<close> with
  \<open>maxIndex = 3\<close> changes nothing.
\<close>

theorem setPage_out_of_range_noop:
  "((\<exists>m. minIndex p = Some m \<and> index < m) \<or> (\<exists>m. maxIndex p = Some m \<and> m < index)
      \<longrightarrow> setPage p layoutPageSize index animated s = s
          \<and> translate (setPage p layoutPageSize index animated s) = translate s
          \<and> settle (setPage p layoutPageSize index animated s) = settle s
          \<and> curIndex (setPage p layoutPageSize index animated s) = curIndex s)
   \<and> (maxIndex p = Some 3 \<longrightarrow> setPage p layoutPageSize 10 animated s = s)"
  by (auto simp: setPage_def lt_minIndex_def gt_maxIndex_def Let_def)

theorem setPage_out_of_range_noop_witness:
  "setPage (default_props\<lparr>maxIndex := Some 3\<rparr>) 300 10 False
       (onLayout 300 600 (mount (default_props\<lparr>maxIndex := Some 3\<rparr>) []))
     = onLayout 300 600 (mount (default_props\<lparr>maxIndex := Some 3\<rparr>) [])
   \<and> translate (setPage (default_props\<lparr>maxIndex := Some 3\<rparr>) 300 2 False
       (onLayout 300 600 (mount (default_props\<lparr>maxIndex := Some 3\<rparr>) []))) = - 600"
  using setPage_out_of_range_noop [of "default_props\<lparr>maxIndex := Some 3\<rparr>" 10 300 False
          "onLayout 300 600 (mount (default_props\<lparr>maxIndex := Some 3\<rparr>) [])"]
  by (simp add: default_props_def mount_def onLayout_def setPage_def pageSize_def
        lt_minIndex_def gt_maxIndex_def)

section \<open>Registration in the active list\<close>

text \<open>
  The value held by \<open>isAtEdgeAnim\<close> is the object \<open>isMinIndex\<close>, which is truthy
  whatever the index: \<open>onBegin\<close> leaves the active list as it is, for every pager,
  state and event, also for a pager strictly inside its bounds (bounds 0 and 10,
  index 5, nobody active).
\<close>

lemma isAtEdgeAnim_truthy: "truthy (dot_value (isAtEdgeAnim p s))"
  by (simp add: isAtEdgeAnim_def isAtEdge_def js_or_def isMinIndex_def)

lemma onBegin_activePagers: "activePagers (onBegin p evt s) = activePagers s"
  by (simp add: onBegin_def isAtEdgeAnim_truthy Let_def)

lemma onBegin_inside_not_registered:
  "curIndex (mount (default_props\<lparr>minIndex := Some 0, maxIndex := Some 10, initialIndex := 5\<rparr>) []) = 5
   \<and> activePagers
       (onBegin (default_props\<lparr>minIndex := Some 0, maxIndex := Some 10, initialIndex := 5\<rparr>)
          \<lparr>ev_x = 100, ev_y = 200, translationX = 0, translationY = 0, velocityX = 0, velocityY = 0\<rparr>
          (mount (default_props\<lparr>minIndex := Some 0, maxIndex := Some 10, initialIndex := 5\<rparr>) [])) = []"
  by (simp add: onBegin_def isAtEdgeAnim_def isAtEdge_def js_or_def isMinIndex_def mount_def
        default_props_def)

text \<open>\<open>onBegin\<close> does not read the bounce fraction.\<close>

lemma onBegin_bouncePct: "onBegin (p\<lparr>bouncePct := b\<rparr>) evt s = onBegin p evt s"
  by (simp add: onBegin_def isAtEdgeAnim_def isAtEdge_def isMinIndex_def isMaxIndex_def
        pagerId_def orientation_of_def)

text \<open>
  A failing touch move always fails the recognizer; it removes the pager from the
  active list when there is a debug tag, and leaves the list as it is when there is
  none. A move that does not fail makes the pager a member. An update and a release
  leave the list as it is, and \<open>onFinalize\<close> removes the pager.
\<close>

lemma onTouchesMove_fail:
  "shouldFailSelf p s ((if vertical p then touch_y t else touch_x t)
                        - (if vertical p then initTouchY s else initTouchX s)) \<Longrightarrow>
   \<exists>s'. onTouchesMove p (t # ts) s = Some s' \<and> failed s'
     \<and> activePagers s' = (if debugTag p \<noteq> [] then filter (\<lambda>pId. pId \<noteq> pagerId p) (activePagers s)
                           else activePagers s)"
  by (simp add: onTouchesMove_def Let_def)

lemma onTouchesMove_accept:
  "\<not> shouldFailSelf p s ((if vertical p then touch_y t else touch_x t)
                        - (if vertical p then initTouchY s else initTouchX s)) \<Longrightarrow>
   \<exists>s'. onTouchesMove p (t # ts) s = Some s' \<and> failed s' = failed s
     \<and> pagerId p \<in> set (activePagers s')"
  by (simp add: onTouchesMove_def Let_def)

lemma onUpdate_activePagers: "onUpdate p evt s = Some s' \<Longrightarrow> activePagers s' = activePagers s"
  by (auto simp: onUpdate_def Let_def split: if_splits option.splits)

lemma onEnd_activePagers: "onEnd p evt s = Some s' \<Longrightarrow> activePagers s' = activePagers s"
  by (auto simp: onEnd_def split: option.splits)

lemma onFinalize_removes: "pagerId p \<notin> set (activePagers (onFinalize p s))"
  by (simp add: onFinalize_def)

text \<open>
  C1, as stated: a pager with bounce enabled is a member of \<open>activePagers\<close> after
  \<open>onBegin\<close>. A pager on its first page (\<open>minIndex = 0\<close>, index 0) with
  \<open>bouncePct = 0.3\<close> and nobody active: the active list is still empty after
  \<open>onBegin\<close>.
\<close>

theorem onBegin_bounce_at_edge_counterexample:
  "bouncePct (default_props\<lparr>minIndex := Some 0, bouncePct := 3 / 10\<rparr>) \<noteq> 0
   \<and> pagerId (default_props\<lparr>minIndex := Some 0, bouncePct := 3 / 10\<rparr>)
       \<notin> set (activePagers
           (onBegin (default_props\<lparr>minIndex := Some 0, bouncePct := 3 / 10\<rparr>)
              \<lparr>ev_x = 100, ev_y = 200, translationX = 0, translationY = 0, velocityX = 0, velocityY = 0\<rparr>
              (onLayout 300 600 (mount (default_props\<lparr>minIndex := Some 0, bouncePct := 3 / 10\<rparr>) []))))"
  by (simp add: onBegin_def isAtEdgeAnim_def isAtEdge_def js_or_def isMinIndex_def onLayout_def
        mount_def default_props_def)

text \<open>
  C1, amended. \<open>onBegin\<close> does not read the bounce fraction, and it does not register
  a pager whose committed index is at a terminal edge (at most \<open>minIndex\<close>, or at
  least \<open>maxIndex\<close>), with bounce enabled or not. A pager becomes a member of
  \<open>activePagers\<close> at a touch move that does not fail, stays one through updates and
  the release, and is removed by \<open>onFinalize\<close>.
\<close>

theorem onBegin_at_edge_not_registered:
  "(((\<exists>m. minIndex p = Some m \<and> real_of_int (curIndex s) \<le> m)
       \<or> (\<exists>m. maxIndex p = Some m \<and> m \<le> real_of_int (curIndex s)))
      \<longrightarrow> activePagers (onBegin p evt s) = activePagers s)
   \<and> onBegin (p\<lparr>bouncePct := b\<rparr>) evt s = onBegin p evt s
   \<and> (\<not> shouldFailSelf p s ((if vertical p then touch_y t else touch_x t)
                              - (if vertical p then initTouchY s else initTouchX s))
        \<longrightarrow> (\<exists>s'. onTouchesMove p (t # ts) s = Some s' \<and> pagerId p \<in> set (activePagers s')))
   \<and> (\<forall>s'. onUpdate p evt s = Some s' \<longrightarrow> activePagers s' = activePagers s)
   \<and> (\<forall>s'. onEnd p evt s = Some s' \<longrightarrow> activePagers s' = activePagers s)
   \<and> pagerId p \<notin> set (activePagers (onFinalize p s))"
  using onTouchesMove_accept [of p s t ts]
  by (auto simp: onBegin_activePagers onBegin_bouncePct onUpdate_activePagers onEnd_activePagers
        onFinalize_removes)

text \<open>
  A gesture on the first page of a pager with bounce: not a member after the begin,
  a member after the first move (to the right, past the edge, which bounce allows).
\<close>

theorem onBegin_at_edge_not_registered_witness:
  "activePagers (onBegin (default_props\<lparr>minIndex := Some 0, bouncePct := 3 / 10\<rparr>)
      \<lparr>ev_x = 100, ev_y = 200, translationX = 0, translationY = 0, velocityX = 0, velocityY = 0\<rparr>
      (onLayout 300 600 (mount (default_props\<lparr>minIndex := Some 0, bouncePct := 3 / 10\<rparr>) []))) = []
   \<and> map_option activePagers
       (onTouchesMove (default_props\<lparr>minIndex := Some 0, bouncePct := 3 / 10\<rparr>)
          [\<lparr>touch_x = 120, touch_y = 200\<rparr>]
          (onBegin (default_props\<lparr>minIndex := Some 0, bouncePct := 3 / 10\<rparr>)
             \<lparr>ev_x = 100, ev_y = 200, translationX = 0, translationY = 0, velocityX = 0, velocityY = 0\<rparr>
             (onLayout 300 600 (mount (default_props\<lparr>minIndex := Some 0, bouncePct := 3 / 10\<rparr>) []))))
       = Some [pagerId (default_props\<lparr>minIndex := Some 0, bouncePct := 3 / 10\<rparr>)]"
proof -
  let ?p = "default_props\<lparr>minIndex := Some 0, bouncePct := 3 / 10\<rparr>"
  let ?e = "\<lparr>ev_x = 100, ev_y = 200, translationX = 0, translationY = 0,
              velocityX = 0, velocityY = 0\<rparr> :: pan_event"
  let ?t = "\<lparr>touch_x = 120, touch_y = 200\<rparr> :: touch"
  let ?s = "onLayout 300 600 (mount ?p [])"
  have edge: "(\<exists>m. minIndex ?p = Some m \<and> real_of_int (curIndex ?s) \<le> m)
       \<or> (\<exists>m. maxIndex ?p = Some m \<and> m \<le> real_of_int (curIndex ?s))"
    by (simp add: onLayout_def mount_def default_props_def)
  from onBegin_at_edge_not_registered [of ?p ?s ?e "3 / 10" ?t "[]"] edge
  have unchanged: "activePagers (onBegin ?p ?e ?s) = activePagers ?s" by blast
  then have 1: "activePagers (onBegin ?p ?e ?s) = []" by (simp add: onLayout_def mount_def)
  let ?s1 = "onBegin ?p ?e ?s"
  have unlocked: "\<not> isGestureLocked ?p (activePagers ?s1)"
    unfolding 1 by (simp add: isGestureLocked_def)
  have accept: "\<not> shouldFailSelf ?p ?s1 ((if vertical ?p then touch_y ?t else touch_x ?t)
                              - (if vertical ?p then initTouchY ?s1 else initTouchX ?s1))"
    using unlocked by (simp add: shouldFailSelf_def default_props_def)
  from onBegin_at_edge_not_registered [of ?p ?s1 ?e "3 / 10" ?t "[]"] accept
  obtain s' where move: "onTouchesMove ?p [?t] ?s1 = Some s'" and "pagerId ?p \<in> set (activePagers s')"
    by blast
  have "map_option activePagers (onTouchesMove ?p [?t] ?s1) = Some [pagerId ?p]"
    using accept by (simp add: onTouchesMove_def Let_def 1)
  with 1 show ?thesis by (simp only:)
qed

text \<open>
  C2. The claim: a touch move that meets the fail condition removes the pager from
  \<open>activePagers\<close>, also with an empty debug tag. The code at a pager on its first
  page (\<open>minIndex = 0\<close>, no bounce, no debug tag): after \<open>onBegin\<close> at \<open>x = 100\<close>, a
  move to \<open>x = 90\<close> is accepted and makes the pager active, and a move to \<open>x = 120\<close>
  (past the edge) fails the recognizer and leaves the pager in the active list.
\<close>

theorem onTouchesMove_fail_keeps_active:
  "debugTag (default_props\<lparr>minIndex := Some 0\<rparr>) = []
   \<and> map_option (\<lambda>s. (failed s, activePagers s))
       (Option.bind
          (onTouchesMove (default_props\<lparr>minIndex := Some 0\<rparr>) [\<lparr>touch_x = 90, touch_y = 200\<rparr>]
             (onBegin (default_props\<lparr>minIndex := Some 0\<rparr>)
                \<lparr>ev_x = 100, ev_y = 200, translationX = 0, translationY = 0, velocityX = 0, velocityY = 0\<rparr>
                (onLayout 300 600 (mount (default_props\<lparr>minIndex := Some 0\<rparr>) []))))
          (onTouchesMove (default_props\<lparr>minIndex := Some 0\<rparr>) [\<lparr>touch_x = 120, touch_y = 200\<rparr>]))
     = Some (True, [pagerId (default_props\<lparr>minIndex := Some 0\<rparr>)])"
  by (simp add: onTouchesMove_def shouldFailSelf_def swipingPastEnd_def isGestureLocked_def
        isDeepestInOrientation_def isMinIndex_def isMaxIndex_def le_minIndex_def ge_maxIndex_def
        onBegin_def isAtEdgeAnim_def isAtEdge_def js_or_def onLayout_def mount_def pagerId_def
        orientation_of_def default_props_def)

section \<open>Focus value and continuous page position\<close>

lemma focusAnim_before_layout:
  "pageSize p s = 0 \<Longrightarrow> focusAnim p s index = Some (real_of_int index - real_of_int (initialIndex p))"
  by (simp add: focusAnim_def)

lemma focusAnim_after_layout:
  "pageSize p s \<noteq> 0 \<Longrightarrow> focusAnim p s index = Some (real_of_int index - pageAnim s)"
  by (simp add: focusAnim_def js_div_def translation_def)

lemma derive_pageAnim_before_layout: "pageSize p s = 0 \<Longrightarrow> derive_pageAnim p s = Some s"
  by (simp add: derive_pageAnim_def)

lemma derive_pageAnim_after_layout:
  "pageSize p s \<noteq> 0 \<Longrightarrow>
   derive_pageAnim p s = Some (s\<lparr>pageAnim := real_of_int (initialIndex p) - translate s / pageSize p s\<rparr>)"
  by (simp add: derive_pageAnim_def js_div_def)

lemma pageSize_reaction: "pageSize p (reaction s) = pageSize p s"
  by (simp add: reaction_def onPageChangeInternal_def pageSize_def Let_def)

lemma pageAnim_reaction: "pageAnim (reaction s) = pageAnim s"
  by (simp add: reaction_def onPageChangeInternal_def Let_def)

text \<open>
  While the page size is zero, the loop keeps the continuous page position, whatever
  is written to \<open>translate\<close>.
\<close>

lemma drive_before_layout:
  "pageSize p s = 0 \<Longrightarrow> \<exists>s'. drive p s ts = Some s' \<and> pageAnim s' = pageAnim s \<and> pageSize p s' = 0"
proof (induction ts arbitrary: s)
  case Nil
  then show ?case by simp
next
  case (Cons t ts)
  let ?s1 = "s\<lparr>translate := t\<rparr>"
  have ps: "pageSize p ?s1 = 0" using Cons.prems by (simp add: pageSize_def split: if_splits)
  then have d: "derive_pageAnim p ?s1 = Some ?s1" by (rule derive_pageAnim_before_layout)
  have "pageSize p (reaction ?s1) = 0" using ps by (simp add: pageSize_reaction)
  from Cons.IH [OF this] obtain s' where
    "drive p (reaction ?s1) ts = Some s'" "pageAnim s' = pageAnim (reaction ?s1)" "pageSize p s' = 0"
    by blast
  then show ?case using d by (simp add: pageAnim_reaction)
qed

text \<open>
  C10, as the claim states its last part: before first layout the continuous page
  position is \<open>initialIndex\<close>. It is not for a pager that is given a
  \<open>pageCallbackNode\<close> holding 7 and the default \<open>initialIndex\<close> 0: the page size
  is zero, the derived value leaves the state as it is, and the position is 7.
\<close>

theorem pageAnim_external_node_counterexample:
  "pageSize (default_props\<lparr>pageCallbackNode := Some 7\<rparr>)
       (mount (default_props\<lparr>pageCallbackNode := Some 7\<rparr>) []) = 0
   \<and> derive_pageAnim (default_props\<lparr>pageCallbackNode := Some 7\<rparr>)
        (mount (default_props\<lparr>pageCallbackNode := Some 7\<rparr>) [])
      = Some (mount (default_props\<lparr>pageCallbackNode := Some 7\<rparr>) [])
   \<and> pageAnim (mount (default_props\<lparr>pageCallbackNode := Some 7\<rparr>) []) = 7
   \<and> pageAnim (mount (default_props\<lparr>pageCallbackNode := Some 7\<rparr>) [])
        \<noteq> real_of_int (initialIndex (default_props\<lparr>pageCallbackNode := Some 7\<rparr>))"
  by (simp add: derive_pageAnim_def pageSize_def mount_def default_props_def)

text \<open>
  C10, amended. The focus value of a page always has a result (it never divides by
  a page size of zero): it is \<open>index - initialIndex\<close> when the page size is zero and
  \<open>index - pageAnim\<close> otherwise. The derived value recomputes the continuous page
  position only when the page size is not zero, so that before first layout the
  position keeps the value it had when the pager mounted: \<open>initialIndex\<close> for the
  pager's own value, the value held by \<open>pageCallbackNode\<close> when one is given.
\<close>

theorem focusAnim_total_pageAnim_guarded:
  "(\<exists>f. focusAnim p s index = Some f)
   \<and> (pageSize p s = 0 \<longrightarrow> focusAnim p s index = Some (real_of_int index - real_of_int (initialIndex p)))
   \<and> (pageSize p s \<noteq> 0 \<longrightarrow> focusAnim p s index = Some (real_of_int index - pageAnim s))
   \<and> (\<exists>s'. derive_pageAnim p s = Some s')
   \<and> (pageSize p s = 0 \<longrightarrow> derive_pageAnim p s = Some s)
   \<and> (pageSize p s \<noteq> 0 \<longrightarrow>
        derive_pageAnim p s
          = Some (s\<lparr>pageAnim := real_of_int (initialIndex p) - translate s / pageSize p s\<rparr>))
   \<and> (pageSize p (mount p active) = 0 \<longrightarrow>
        (\<exists>s'. drive p (mount p active) ts = Some s'
           \<and> pageAnim s' = (case pageCallbackNode p of
                              None \<Rightarrow> real_of_int (initialIndex p) | Some v \<Rightarrow> v)))"
proof -
  have 1: "\<exists>f. focusAnim p s index = Some f"
    using focusAnim_before_layout [of p s index] focusAnim_after_layout [of p s index] by blast
  have 2: "\<exists>s'. derive_pageAnim p s = Some s'"
    using derive_pageAnim_before_layout [of p s] derive_pageAnim_after_layout [of p s] by blast
  have 3: "pageSize p (mount p active) = 0 \<longrightarrow>
        (\<exists>s'. drive p (mount p active) ts = Some s'
           \<and> pageAnim s' = (case pageCallbackNode p of
                              None \<Rightarrow> real_of_int (initialIndex p) | Some v \<Rightarrow> v))"
  proof
    assume "pageSize p (mount p active) = 0"
    from drive_before_layout [OF this, of ts] obtain s' where
      "drive p (mount p active) ts = Some s'" "pageAnim s' = pageAnim (mount p active)" by blast
    then show "\<exists>s'. drive p (mount p active) ts = Some s'
           \<and> pageAnim s' = (case pageCallbackNode p of
                              None \<Rightarrow> real_of_int (initialIndex p) | Some v \<Rightarrow> v)"
      by (simp add: mount_def)
  qed
  from 1 2 3 show ?thesis
    using focusAnim_before_layout [of p s index] focusAnim_after_layout [of p s index]
      derive_pageAnim_before_layout [of p s] derive_pageAnim_after_layout [of p s]
    by blast
qed

theorem focusAnim_total_pageAnim_guarded_witness:
  "pageSize (default_props\<lparr>initialIndex := 3\<rparr>) (mount (default_props\<lparr>initialIndex := 3\<rparr>) []) = 0
   \<and> focusAnim (default_props\<lparr>initialIndex := 3\<rparr>) (mount (default_props\<lparr>initialIndex := 3\<rparr>) []) 4 = Some 1
   \<and> map_option pageAnim
       (drive (default_props\<lparr>initialIndex := 3\<rparr>) (mount (default_props\<lparr>initialIndex := 3\<rparr>) []) [- 40, - 90])
       = Some 3
   \<and> pageSize default_props ((onLayout 300 600 (mount default_props []))\<lparr>pageAnim := 1 / 2\<rparr>) \<noteq> 0
   \<and> focusAnim default_props ((onLayout 300 600 (mount default_props []))\<lparr>pageAnim := 1 / 2\<rparr>) 2 = Some (3 / 2)
   \<and> map_option pageAnim
       (derive_pageAnim default_props ((onLayout 300 600 (mount default_props []))\<lparr>translate := - 150\<rparr>))
       = Some (1 / 2)"
  using focusAnim_total_pageAnim_guarded [of "default_props\<lparr>initialIndex := 3\<rparr>"
            "mount (default_props\<lparr>initialIndex := 3\<rparr>) []" 4 "[]" "[- 40, - 90]"]
        focusAnim_total_pageAnim_guarded [of default_props
            "(onLayout 300 600 (mount default_props []))\<lparr>pageAnim := 1 / 2\<rparr>" 2 "[]" "[]"]
        focusAnim_total_pageAnim_guarded [of default_props
            "(onLayout 300 600 (mount default_props []))\<lparr>translate := - 150\<rparr>" 2 "[]" "[]"]
  by (simp add: pageSize_def mount_def onLayout_def default_props_def)

section \<open>Release: fling and settle target\<close>

lemma isFling_unlocked:
  "\<not> isGestureLocked p (activePagers s) \<Longrightarrow>
   \<bar>pan_crossAxisTranslate p evt\<bar> \<le> \<bar>pan_evtTranslate p evt\<bar> \<Longrightarrow>
   isFling p evt s = (\<bar>end_evtVelocity p evt\<bar> > flingVelocity p)"
  by (simp add: isFling_def end_isSwipingCrossAxis_def)

lemma isFling_locked_or_cross:
  "isGestureLocked p (activePagers s) \<or> \<bar>pan_crossAxisTranslate p evt\<bar> > \<bar>pan_evtTranslate p evt\<bar> \<Longrightarrow>
   \<not> isFling p evt s"
  by (auto simp: isFling_def end_isSwipingCrossAxis_def)

lemma velocityModifier_cases:
  "velocityModifier p evt s =
     (if isFling p evt s
      then (if end_evtVelocity p evt < 0 then - (pageSize p s / 2) else pageSize p s / 2)
      else 0)"
  by (simp add: velocityModifier_def Let_def)

lemma end_page_clamped:
  assumes ps: "pageSize p s \<noteq> 0"
    and raw: "raw = real_of_int (initialIndex p)
                - real_of_int (js_round ((translate s + velocityModifier p evt s) / pageSize p s))"
  shows "\<exists>page. end_page p evt s = Some page
           \<and> (page = raw \<or> minIndex p = Some page \<or> maxIndex p = Some page)
           \<and> (ge_minIndex raw (minIndex p) \<and> le_maxIndex raw (maxIndex p) \<longrightarrow> page = raw)
           \<and> (le_maxIndex page (maxIndex p))
           \<and> ((\<forall>a b. minIndex p = Some a \<and> maxIndex p = Some b \<longrightarrow> a \<le> b) \<longrightarrow>
                 ge_minIndex page (minIndex p)
                 \<and> (lt_minIndex raw (minIndex p) \<longrightarrow> minIndex p = Some page)
                 \<and> (gt_maxIndex raw (maxIndex p) \<longrightarrow> maxIndex p = Some page))"
  using ps raw
  by (cases "minIndex p"; cases "maxIndex p")
     (auto simp: end_page_def js_div_def Let_def ge_minIndex_def le_maxIndex_def
        lt_minIndex_def gt_maxIndex_def)

lemma onEnd_settle:
  "end_page p evt s = Some page \<Longrightarrow>
   onEnd p evt s = Some (s\<lparr>settle := Some (- (page - real_of_int (initialIndex p)) * pageSize p s)\<rparr>)"
  by (simp add: onEnd_def)

text \<open>
  C4. At a release that is not locked and not across the axis, a fling is declared
  exactly when the absolute release velocity on the pager's axis exceeds
  \<open>flingVelocity\<close>. The nudge is half a page, negative for a negative velocity, and
  zero without a fling. With a page size that is not zero, the target page is
  \<open>initialIndex - round ((translate + nudge) / pageSize)\<close> clamped into the bounds:
  that page when it is in range, \<open>minIndex\<close> when it is below and \<open>maxIndex\<close> when it
  is above (for bounds with \<open>minIndex \<le> maxIndex\<close>), and the spring is started
  towards the translate of the target page. With threshold 500, velocity \<open>- 600\<close>,
  translate \<open>- 50\<close>, page size 300 and no bounds, the target is one page after
  \<open>initialIndex\<close>, the page that \<open>- 50\<close> alone rounds to.
\<close>

theorem onEnd_fling_target:
  assumes unlocked: "\<not> isGestureLocked p (activePagers s)"
    and on_axis: "\<bar>pan_crossAxisTranslate p evt\<bar> \<le> \<bar>pan_evtTranslate p evt\<bar>"
    and ps: "pageSize p s \<noteq> 0"
  shows "(isFling p evt s = (\<bar>end_evtVelocity p evt\<bar> > flingVelocity p))
    \<and> velocityModifier p evt s =
         (if \<bar>end_evtVelocity p evt\<bar> > flingVelocity p
          then (if end_evtVelocity p evt < 0 then - (pageSize p s / 2) else pageSize p s / 2)
          else 0)
    \<and> (\<exists>page raw.
          raw = real_of_int (initialIndex p)
                  - real_of_int (js_round ((translate s + velocityModifier p evt s) / pageSize p s))
          \<and> end_page p evt s = Some page
          \<and> onEnd p evt s
              = Some (s\<lparr>settle := Some (- (page - real_of_int (initialIndex p)) * pageSize p s)\<rparr>)
          \<and> (ge_minIndex raw (minIndex p) \<and> le_maxIndex raw (maxIndex p) \<longrightarrow> page = raw)
          \<and> ((\<forall>a b. minIndex p = Some a \<and> maxIndex p = Some b \<longrightarrow> a \<le> b) \<longrightarrow>
                ge_minIndex page (minIndex p) \<and> le_maxIndex page (maxIndex p)
                \<and> (lt_minIndex raw (minIndex p) \<longrightarrow> minIndex p = Some page)
                \<and> (gt_maxIndex raw (maxIndex p) \<longrightarrow> maxIndex p = Some page)))
    \<and> (flingVelocity p = 500 \<and> end_evtVelocity p evt = - 600 \<and> translate s = - 50
          \<and> pageSize p s = 300 \<and> minIndex p = None \<and> maxIndex p = None \<longrightarrow>
        end_page p evt s = Some (real_of_int (initialIndex p) + 1)
        \<and> real_of_int (initialIndex p) - real_of_int (js_round (translate s / pageSize p s))
             = real_of_int (initialIndex p))"
proof -
  have fling: "isFling p evt s = (\<bar>end_evtVelocity p evt\<bar> > flingVelocity p)"
    using unlocked on_axis by (rule isFling_unlocked)
  have nudge: "velocityModifier p evt s =
         (if \<bar>end_evtVelocity p evt\<bar> > flingVelocity p
          then (if end_evtVelocity p evt < 0 then - (pageSize p s / 2) else pageSize p s / 2)
          else 0)"
    by (simp add: velocityModifier_cases fling)
  define raw where "raw = real_of_int (initialIndex p)
      - real_of_int (js_round ((translate s + velocityModifier p evt s) / pageSize p s))"
  from end_page_clamped [OF ps raw_def] obtain page where
    page: "end_page p evt s = Some page"
    and inside: "ge_minIndex raw (minIndex p) \<and> le_maxIndex raw (maxIndex p) \<longrightarrow> page = raw"
    and upper: "le_maxIndex page (maxIndex p)"
    and ordered: "(\<forall>a b. minIndex p = Some a \<and> maxIndex p = Some b \<longrightarrow> a \<le> b) \<longrightarrow>
                 ge_minIndex page (minIndex p)
                 \<and> (lt_minIndex raw (minIndex p) \<longrightarrow> minIndex p = Some page)
                 \<and> (gt_maxIndex raw (maxIndex p) \<longrightarrow> maxIndex p = Some page)"
    by blast
  have target: "\<exists>page raw.
          raw = real_of_int (initialIndex p)
                  - real_of_int (js_round ((translate s + velocityModifier p evt s) / pageSize p s))
          \<and> end_page p evt s = Some page
          \<and> onEnd p evt s
              = Some (s\<lparr>settle := Some (- (page - real_of_int (initialIndex p)) * pageSize p s)\<rparr>)
          \<and> (ge_minIndex raw (minIndex p) \<and> le_maxIndex raw (maxIndex p) \<longrightarrow> page = raw)
          \<and> ((\<forall>a b. minIndex p = Some a \<and> maxIndex p = Some b \<longrightarrow> a \<le> b) \<longrightarrow>
                ge_minIndex page (minIndex p) \<and> le_maxIndex page (maxIndex p)
                \<and> (lt_minIndex raw (minIndex p) \<longrightarrow> minIndex p = Some page)
                \<and> (gt_maxIndex raw (maxIndex p) \<longrightarrow> maxIndex p = Some page))"
    using page inside upper ordered onEnd_settle [OF page] raw_def by blast
  have example: "flingVelocity p = 500 \<and> end_evtVelocity p evt = - 600 \<and> translate s = - 50
          \<and> pageSize p s = 300 \<and> minIndex p = None \<and> maxIndex p = None \<longrightarrow>
        end_page p evt s = Some (real_of_int (initialIndex p) + 1)
        \<and> real_of_int (initialIndex p) - real_of_int (js_round (translate s / pageSize p s))
             = real_of_int (initialIndex p)"
  proof
    assume h: "flingVelocity p = 500 \<and> end_evtVelocity p evt = - 600 \<and> translate s = - 50
          \<and> pageSize p s = 300 \<and> minIndex p = None \<and> maxIndex p = None"
    then have vm: "velocityModifier p evt s = - (300 / 2)" using nudge by simp
    have "end_page p evt s = Some (real_of_int (initialIndex p) + 1)"
      using h by (simp add: end_page_def js_div_def vm js_round_def)
    moreover have "real_of_int (initialIndex p) - real_of_int (js_round (translate s / pageSize p s))
             = real_of_int (initialIndex p)"
      using h by (simp add: js_round_def)
    ultimately show "end_page p evt s = Some (real_of_int (initialIndex p) + 1)
        \<and> real_of_int (initialIndex p) - real_of_int (js_round (translate s / pageSize p s))
             = real_of_int (initialIndex p)" ..
  qed
  from fling nudge target example show ?thesis by blast
qed

text \<open>
  A whole gesture on a laid-out default pager: begin, a move and an update by
  \<open>- 50\<close>, and a release at velocity \<open>- 600\<close> settle on page 1 (translate \<open>- 300\<close>);
  the same release at velocity \<open>- 400\<close> settles back on page 0.
\<close>

theorem onEnd_fling_target_witness:
  "isFling default_props
      \<lparr>ev_x = 50, ev_y = 200, translationX = - 50, translationY = 0, velocityX = - 600, velocityY = 0\<rparr>
      ((onLayout 300 600 (mount default_props []))\<lparr>translate := - 50\<rparr>)
   \<and> end_page default_props
      \<lparr>ev_x = 50, ev_y = 200, translationX = - 50, translationY = 0, velocityX = - 600, velocityY = 0\<rparr>
      ((onLayout 300 600 (mount default_props []))\<lparr>translate := - 50\<rparr>) = Some 1
   \<and> map_option settle (onEnd default_props
      \<lparr>ev_x = 50, ev_y = 200, translationX = - 50, translationY = 0, velocityX = - 600, velocityY = 0\<rparr>
      ((onLayout 300 600 (mount default_props []))\<lparr>translate := - 50\<rparr>)) = Some (Some (- 300))"
proof -
  let ?evt = "\<lparr>ev_x = 50, ev_y = 200, translationX = - 50, translationY = 0,
                velocityX = - 600, velocityY = 0\<rparr> :: pan_event"
  let ?s = "(onLayout 300 600 (mount default_props []))\<lparr>translate := - 50\<rparr>"
  have 1: "\<not> isGestureLocked default_props (activePagers ?s)"
    by (simp add: isGestureLocked_def onLayout_def mount_def)
  have 2: "\<bar>pan_crossAxisTranslate default_props ?evt\<bar> \<le> \<bar>pan_evtTranslate default_props ?evt\<bar>"
    by (simp add: pan_crossAxisTranslate_def pan_evtTranslate_def default_props_def)
  have 3: "pageSize default_props ?s \<noteq> 0"
    by (simp add: pageSize_def onLayout_def mount_def default_props_def)
  have 4: "flingVelocity default_props = 500 \<and> end_evtVelocity default_props ?evt = - 600
          \<and> translate ?s = - 50 \<and> pageSize default_props ?s = 300
          \<and> minIndex default_props = None \<and> maxIndex default_props = None"
    by (simp add: end_evtVelocity_def pageSize_def onLayout_def mount_def default_props_def)
  have 5: "initialIndex default_props = 0" by (simp add: default_props_def)
  from onEnd_fling_target [OF 1 2 3] 4 5
  have "isFling default_props ?evt ?s" and page: "end_page default_props ?evt ?s = Some 1"
    by simp_all
  moreover from onEnd_settle [OF page] 4 5
  have "map_option settle (onEnd default_props ?evt ?s) = Some (Some (- 300))" by simp
  ultimately show ?thesis by blast
qed

lemma whole_gesture_fling:
  "map_option settle
     (Option.bind
        (Option.bind
           (onTouchesMove default_props [\<lparr>touch_x = 90, touch_y = 200\<rparr>]
              (onBegin default_props
                 \<lparr>ev_x = 100, ev_y = 200, translationX = 0, translationY = 0, velocityX = 0, velocityY = 0\<rparr>
                 (onLayout 300 600 (mount default_props []))))
           (onUpdate default_props
              \<lparr>ev_x = 50, ev_y = 200, translationX = - 50, translationY = 0, velocityX = - 600, velocityY = 0\<rparr>))
        (onEnd default_props
           \<lparr>ev_x = 50, ev_y = 200, translationX = - 50, translationY = 0, velocityX = - 600, velocityY = 0\<rparr>))
     = Some (Some (- 300))"
  by (simp add: onTouchesMove_def shouldFailSelf_def swipingPastEnd_def isGestureLocked_def
        isDeepestInOrientation_def isMinIndex_def isMaxIndex_def le_minIndex_def ge_maxIndex_def
        onBegin_def isAtEdgeAnim_def isAtEdge_def js_or_def onLayout_def mount_def pagerId_def
        orientation_of_def default_props_def onUpdate_def update_isSwipingCrossAxis_def
        pan_crossAxisTranslate_def pan_evtTranslate_def update_page_def update_rawVal_def js_div_def
        pageSize_def ge_minIndex_def le_maxIndex_def onEnd_def end_page_def velocityModifier_def
        isFling_def end_isSwipingCrossAxis_def end_evtVelocity_def js_round_def)

section \<open>Update: edge policy\<close>

lemma update_page_rawVal:
  "pageSize p s \<noteq> 0 \<Longrightarrow>
   update_page p evt s = Some (real_of_int (initialIndex p) - update_rawVal p evt s / pageSize p s)"
  by (simp add: update_page_def js_div_def)

text \<open>The page that a translate shows, and back: the raw translate is the one implied by the page.\<close>

lemma rawVal_of_page:
  "pageSize p s \<noteq> 0 \<Longrightarrow> update_page p evt s = Some page \<Longrightarrow>
   update_rawVal p evt s = (real_of_int (initialIndex p) - page) * pageSize p s"
  by (auto simp: update_page_rawVal field_simps)

text \<open>An out-of-range page has a finite reference bound.\<close>

lemma referenceVal_finite:
  "\<not> (ge_minIndex page (minIndex p) \<and> le_maxIndex page (maxIndex p)) \<Longrightarrow>
   \<exists>r. referenceVal p page = Some r
     \<and> (if lt_minIndex page (minIndex p) then minIndex p = Some r \<and> page < r
         else maxIndex p = Some r \<and> r < page)"
  by (cases "minIndex p"; cases "maxIndex p")
     (auto simp: referenceVal_def ge_minIndex_def le_maxIndex_def lt_minIndex_def)

lemma referenceVal_nearer:
  assumes out: "\<not> (ge_minIndex page (minIndex p) \<and> le_maxIndex page (maxIndex p))"
    and ordered: "\<forall>a b. minIndex p = Some a \<and> maxIndex p = Some b \<longrightarrow> a \<le> b"
    and r: "referenceVal p page = Some r"
  shows "\<forall>m. minIndex p = Some m \<or> maxIndex p = Some m \<longrightarrow> \<bar>r - page\<bar> \<le> \<bar>m - page\<bar>"
  using assms
  by (cases "minIndex p"; cases "maxIndex p")
     (auto simp: referenceVal_def ge_minIndex_def le_maxIndex_def lt_minIndex_def split: if_splits)

lemma onUpdate_suppressed:
  "isGestureLocked p (activePagers s) \<or> update_isSwipingCrossAxis p evt \<Longrightarrow> onUpdate p evt s = Some s"
  by (auto simp: onUpdate_def)

lemma onUpdate_in_range:
  assumes "\<not> isGestureLocked p (activePagers s)" "\<not> update_isSwipingCrossAxis p evt"
    and "update_page p evt s = Some page"
    and "ge_minIndex page (minIndex p) \<and> le_maxIndex page (maxIndex p)"
  shows "onUpdate p evt s = Some (s\<lparr>translate := update_rawVal p evt s, settle := None\<rparr>)"
  using assms by (simp add: onUpdate_def Let_def)

lemma onUpdate_out_of_range:
  assumes "\<not> isGestureLocked p (activePagers s)" "\<not> update_isSwipingCrossAxis p evt"
    and "update_page p evt s = Some page"
    and "\<not> (ge_minIndex page (minIndex p) \<and> le_maxIndex page (maxIndex p))"
    and "referenceVal p page = Some r"
  shows "onUpdate p evt s
           = Some (s\<lparr>translate := update_rawVal p evt s - (r - page) * pageSize p s
                                   + (r - page) * (bouncePct p * pageSize p s),
                     settle := None\<rparr>)"
  using assms by (auto simp: onUpdate_def Let_def)

text \<open>
  C5. At an update that is neither locked nor across the axis, with a page size that
  is not zero, \<open>rawTranslate = startTranslate + evtTranslate\<close> and the candidate page
  \<open>p = initialIndex - rawTranslate / pageSize\<close>: a candidate in range writes
  \<open>rawTranslate\<close>; a candidate out of range writes
  \<open>rawTranslate - overflow * pageSize + overflow * (b * pageSize)\<close> with
  \<open>overflow = ref - p\<close>, where \<open>ref\<close> is \<open>minIndex\<close> for a page below it and
  \<open>maxIndex\<close> otherwise: for \<open>minIndex \<le> maxIndex\<close>, the bound nearer to \<open>p\<close>.
\<close>

theorem onUpdate_edge_policy:
  assumes unlocked: "\<not> isGestureLocked p (activePagers s)"
    and on_axis: "\<not> (\<bar>pan_crossAxisTranslate p evt\<bar> > 10
                     \<and> \<bar>pan_crossAxisTranslate p evt\<bar> > \<bar>pan_evtTranslate p evt\<bar>)"
    and ps: "pageSize p s \<noteq> 0"
    and rawTranslate: "rawTranslate = startTranslate s + pan_evtTranslate p evt"
    and page: "page = real_of_int (initialIndex p) - rawTranslate / pageSize p s"
  shows "(ge_minIndex page (minIndex p) \<and> le_maxIndex page (maxIndex p) \<longrightarrow>
           onUpdate p evt s = Some (s\<lparr>translate := rawTranslate, settle := None\<rparr>))
    \<and> (\<not> (ge_minIndex page (minIndex p) \<and> le_maxIndex page (maxIndex p)) \<longrightarrow>
         (\<exists>ref. (if lt_minIndex page (minIndex p) then minIndex p = Some ref \<and> page < ref
                  else maxIndex p = Some ref \<and> ref < page)
            \<and> ((\<forall>a b. minIndex p = Some a \<and> maxIndex p = Some b \<longrightarrow> a \<le> b) \<longrightarrow>
                 (\<forall>m. minIndex p = Some m \<or> maxIndex p = Some m \<longrightarrow> \<bar>ref - page\<bar> \<le> \<bar>m - page\<bar>))
            \<and> onUpdate p evt s
                = Some (s\<lparr>translate := rawTranslate - (ref - page) * pageSize p s
                                        + (ref - page) * (bouncePct p * pageSize p s),
                          settle := None\<rparr>)))"
proof -
  have cross: "\<not> update_isSwipingCrossAxis p evt"
    using on_axis by (simp add: update_isSwipingCrossAxis_def)
  have raw: "update_rawVal p evt s = rawTranslate"
    by (simp add: update_rawVal_def rawTranslate)
  have pg: "update_page p evt s = Some page"
    using ps by (simp add: update_page_rawVal raw page)
  have inside: "ge_minIndex page (minIndex p) \<and> le_maxIndex page (maxIndex p) \<longrightarrow>
           onUpdate p evt s = Some (s\<lparr>translate := rawTranslate, settle := None\<rparr>)"
    using onUpdate_in_range [OF unlocked cross pg] raw by simp
  have outside: "\<not> (ge_minIndex page (minIndex p) \<and> le_maxIndex page (maxIndex p)) \<longrightarrow>
         (\<exists>ref. (if lt_minIndex page (minIndex p) then minIndex p = Some ref \<and> page < ref
                  else maxIndex p = Some ref \<and> ref < page)
            \<and> ((\<forall>a b. minIndex p = Some a \<and> maxIndex p = Some b \<longrightarrow> a \<le> b) \<longrightarrow>
                 (\<forall>m. minIndex p = Some m \<or> maxIndex p = Some m \<longrightarrow> \<bar>ref - page\<bar> \<le> \<bar>m - page\<bar>))
            \<and> onUpdate p evt s
                = Some (s\<lparr>translate := rawTranslate - (ref - page) * pageSize p s
                                        + (ref - page) * (bouncePct p * pageSize p s),
                          settle := None\<rparr>))"
  proof
    assume out: "\<not> (ge_minIndex page (minIndex p) \<and> le_maxIndex page (maxIndex p))"
    from referenceVal_finite [OF out] obtain r where
      r: "referenceVal p page = Some r"
      and side: "if lt_minIndex page (minIndex p) then minIndex p = Some r \<and> page < r
                 else maxIndex p = Some r \<and> r < page"
      by blast
    have near: "(\<forall>a b. minIndex p = Some a \<and> maxIndex p = Some b \<longrightarrow> a \<le> b) \<longrightarrow>
                 (\<forall>m. minIndex p = Some m \<or> maxIndex p = Some m \<longrightarrow> \<bar>r - page\<bar> \<le> \<bar>m - page\<bar>)"
      using referenceVal_nearer [OF out _ r] by blast
    from onUpdate_out_of_range [OF unlocked cross pg out r] raw
    have "onUpdate p evt s
                = Some (s\<lparr>translate := rawTranslate - (r - page) * pageSize p s
                                        + (r - page) * (bouncePct p * pageSize p s),
                          settle := None\<rparr>)" by simp
    with side near show "\<exists>ref. (if lt_minIndex page (minIndex p) then minIndex p = Some ref \<and> page < ref
                  else maxIndex p = Some ref \<and> ref < page)
            \<and> ((\<forall>a b. minIndex p = Some a \<and> maxIndex p = Some b \<longrightarrow> a \<le> b) \<longrightarrow>
                 (\<forall>m. minIndex p = Some m \<or> maxIndex p = Some m \<longrightarrow> \<bar>ref - page\<bar> \<le> \<bar>m - page\<bar>))
            \<and> onUpdate p evt s
                = Some (s\<lparr>translate := rawTranslate - (ref - page) * pageSize p s
                                        + (ref - page) * (bouncePct p * pageSize p s),
                          settle := None\<rparr>)" by blast
  qed
  from inside outside show ?thesis ..
qed

theorem onUpdate_edge_policy_witness:
  "map_option translate
     (onUpdate (default_props\<lparr>minIndex := Some 0, maxIndex := Some 2, bouncePct := 1 / 2\<rparr>)
        \<lparr>ev_x = 160, ev_y = 200, translationX = 60, translationY = 0, velocityX = 0, velocityY = 0\<rparr>
        (onLayout 300 600
           (mount (default_props\<lparr>minIndex := Some 0, maxIndex := Some 2, bouncePct := 1 / 2\<rparr>) [])))
     = Some 30
   \<and> map_option translate
     (onUpdate (default_props\<lparr>minIndex := Some 0, maxIndex := Some 2, bouncePct := 1 / 2\<rparr>)
        \<lparr>ev_x = 40, ev_y = 200, translationX = - 60, translationY = 0, velocityX = 0, velocityY = 0\<rparr>
        (onLayout 300 600
           (mount (default_props\<lparr>minIndex := Some 0, maxIndex := Some 2, bouncePct := 1 / 2\<rparr>) [])))
     = Some (- 60)"
proof -
  let ?p = "default_props\<lparr>minIndex := Some 0, maxIndex := Some 2, bouncePct := 1 / 2\<rparr>"
  let ?s = "onLayout 300 600 (mount ?p [])"
  let ?out = "\<lparr>ev_x = 160, ev_y = 200, translationX = 60, translationY = 0,
                velocityX = 0, velocityY = 0\<rparr> :: pan_event"
  let ?in = "\<lparr>ev_x = 40, ev_y = 200, translationX = - 60, translationY = 0,
               velocityX = 0, velocityY = 0\<rparr> :: pan_event"
  have unlocked: "\<not> isGestureLocked ?p (activePagers ?s)"
    by (simp add: isGestureLocked_def onLayout_def mount_def)
  have on_axis: "\<not> (\<bar>pan_crossAxisTranslate ?p e\<bar> > 10
                     \<and> \<bar>pan_crossAxisTranslate ?p e\<bar> > \<bar>pan_evtTranslate ?p e\<bar>)"
    if "translationY e = 0" for e :: pan_event
    using that by (simp add: pan_crossAxisTranslate_def pan_evtTranslate_def default_props_def)
  have ps: "pageSize ?p ?s \<noteq> 0"
    by (simp add: pageSize_def onLayout_def mount_def default_props_def)
  have vals: "pageSize ?p ?s = 300" "startTranslate ?s = 0" "initialIndex ?p = 0"
    "minIndex ?p = Some 0" "maxIndex ?p = Some 2" "bouncePct ?p = 1 / 2"
    "pan_evtTranslate ?p ?out = 60" "pan_evtTranslate ?p ?in = - 60"
    by (simp_all add: pageSize_def onLayout_def mount_def default_props_def pan_evtTranslate_def)
  have "map_option translate (onUpdate ?p ?out ?s) = Some 30"
    using onUpdate_edge_policy [OF unlocked on_axis ps refl refl, of ?out]
    by (auto simp: vals ge_minIndex_def le_maxIndex_def lt_minIndex_def)
  moreover have "map_option translate (onUpdate ?p ?in ?s) = Some (- 60)"
    using onUpdate_edge_policy [OF unlocked on_axis ps refl refl, of ?in]
    by (auto simp: vals ge_minIndex_def le_maxIndex_def lt_minIndex_def)
  ultimately show ?thesis ..
qed

section \<open>Update: size of the bounce\<close>

text \<open>
  C6, as stated: with \<open>bouncePct = 0.3\<close> and \<open>pageSize = 300\<close> the rendered
  overshoot stays below a full page (300 units) for every input overflow of more than
  a page. A pager with \<open>maxIndex = 2\<close> is put on page 2 by \<open>setPage\<close> (translate
  \<open>- 600\<close>, the translate of the bound); a gesture begins there and is dragged by
  \<open>- 1200\<close>, four pages past the bound. The update writes the translate \<open>- 960\<close>:
  360 units past the bound.
\<close>

theorem onUpdate_bounce_unbounded_counterexample:
  "translate (setPage (default_props\<lparr>maxIndex := Some 2, bouncePct := 3 / 10\<rparr>) 300 2 False
       (onLayout 300 600 (mount (default_props\<lparr>maxIndex := Some 2, bouncePct := 3 / 10\<rparr>) [])))
     = - 600
   \<and> map_option translate
     (onUpdate (default_props\<lparr>maxIndex := Some 2, bouncePct := 3 / 10\<rparr>)
        \<lparr>ev_x = 100, ev_y = 200, translationX = - 1200, translationY = 0, velocityX = 0, velocityY = 0\<rparr>
        (onBegin (default_props\<lparr>maxIndex := Some 2, bouncePct := 3 / 10\<rparr>)
           \<lparr>ev_x = 1300, ev_y = 200, translationX = 0, translationY = 0, velocityX = 0, velocityY = 0\<rparr>
           (setPage (default_props\<lparr>maxIndex := Some 2, bouncePct := 3 / 10\<rparr>) 300 2 False
              (onLayout 300 600 (mount (default_props\<lparr>maxIndex := Some 2, bouncePct := 3 / 10\<rparr>) [])))))
     = Some (- 960)
   \<and> \<not> \<bar>- 960 - (- 600)\<bar> < (300 :: real)"
  by (simp add: onUpdate_def update_isSwipingCrossAxis_def pan_crossAxisTranslate_def
        pan_evtTranslate_def update_page_def update_rawVal_def js_div_def pageSize_def
        ge_minIndex_def le_maxIndex_def lt_minIndex_def gt_maxIndex_def referenceVal_def
        isGestureLocked_def onBegin_def isAtEdgeAnim_def isAtEdge_def js_or_def isMinIndex_def
        setPage_def onLayout_def mount_def default_props_def)

text \<open>
  C6, amended. With \<open>bouncePct = 0.3\<close> and \<open>pageSize = 300\<close>, an update that is
  neither locked nor across the axis and whose candidate page is out of range
  writes a translate that lies \<open>90 * overflow\<close> units from the translate of the
  bound, \<open>overflow = ref - page\<close> being the input overflow in pages: 90 units for an
  overflow of exactly one page, and proportional to the overflow beyond, so that it
  is below a full page (300 units) exactly for an overflow of less than \<open>10 / 3\<close>
  pages.
\<close>

theorem onUpdate_bounce_linear:
  assumes unlocked: "\<not> isGestureLocked p (activePagers s)"
    and on_axis: "\<not> (\<bar>pan_crossAxisTranslate p evt\<bar> > 10
                     \<and> \<bar>pan_crossAxisTranslate p evt\<bar> > \<bar>pan_evtTranslate p evt\<bar>)"
    and b: "bouncePct p = 3 / 10"
    and ps: "pageSize p s = 300"
    and page: "page = real_of_int (initialIndex p) - (startTranslate s + pan_evtTranslate p evt) / 300"
    and out: "\<not> (ge_minIndex page (minIndex p) \<and> le_maxIndex page (maxIndex p))"
  shows "\<exists>s' ref.
      onUpdate p evt s = Some s'
      \<and> (if lt_minIndex page (minIndex p) then minIndex p = Some ref \<and> page < ref
          else maxIndex p = Some ref \<and> ref < page)
      \<and> translate s' - (real_of_int (initialIndex p) - ref) * 300 = 90 * (ref - page)
      \<and> (\<bar>ref - page\<bar> = 1 \<longrightarrow> \<bar>translate s' - (real_of_int (initialIndex p) - ref) * 300\<bar> = 90)
      \<and> (\<bar>translate s' - (real_of_int (initialIndex p) - ref) * 300\<bar> < 300 \<longleftrightarrow> \<bar>ref - page\<bar> < 10 / 3)"
proof -
  have cross: "\<not> update_isSwipingCrossAxis p evt"
    using on_axis by (simp add: update_isSwipingCrossAxis_def)
  have ps0: "pageSize p s \<noteq> 0" using ps by simp
  have pg: "update_page p evt s = Some page"
    using ps by (simp add: update_page_rawVal [OF ps0] update_rawVal_def page)
  from referenceVal_finite [OF out] obtain r where
    r: "referenceVal p page = Some r"
    and side: "if lt_minIndex page (minIndex p) then minIndex p = Some r \<and> page < r
               else maxIndex p = Some r \<and> r < page"
    by blast
  let ?s' = "s\<lparr>translate := update_rawVal p evt s - (r - page) * pageSize p s
                              + (r - page) * (bouncePct p * pageSize p s),
                settle := None\<rparr>"
  have upd: "onUpdate p evt s = Some ?s'"
    by (rule onUpdate_out_of_range [OF unlocked cross pg out r])
  have raw: "update_rawVal p evt s = (real_of_int (initialIndex p) - page) * 300"
    using rawVal_of_page [OF ps0 pg] ps by simp
  have dist: "translate ?s' - (real_of_int (initialIndex p) - r) * 300 = 90 * (r - page)"
    by (simp add: raw b ps algebra_simps)
  have size: "\<bar>translate ?s' - (real_of_int (initialIndex p) - r) * 300\<bar> = 90 * \<bar>r - page\<bar>"
    unfolding dist by (simp only: abs_mult abs_numeral)
  have one: "\<bar>r - page\<bar> = 1 \<longrightarrow> \<bar>translate ?s' - (real_of_int (initialIndex p) - r) * 300\<bar> = 90"
    unfolding size by simp
  have below: "\<bar>translate ?s' - (real_of_int (initialIndex p) - r) * 300\<bar> < 300 \<longleftrightarrow> \<bar>r - page\<bar> < 10 / 3"
    unfolding size by auto
  from upd side dist one below show ?thesis by blast
qed

theorem onUpdate_bounce_linear_witness:
  "map_option translate
     (onUpdate (default_props\<lparr>maxIndex := Some 2, bouncePct := 3 / 10\<rparr>)
        \<lparr>ev_x = 0, ev_y = 200, translationX = - 300, translationY = 0, velocityX = 0, velocityY = 0\<rparr>
        ((onLayout 300 600 (mount (default_props\<lparr>maxIndex := Some 2, bouncePct := 3 / 10\<rparr>) []))
           \<lparr>translate := - 600, startTranslate := - 600\<rparr>))
     = Some (- 690)"
proof -
  let ?p = "default_props\<lparr>maxIndex := Some 2, bouncePct := 3 / 10\<rparr>"
  let ?s = "(onLayout 300 600 (mount ?p []))\<lparr>translate := - 600, startTranslate := - 600\<rparr>"
  let ?evt = "\<lparr>ev_x = 0, ev_y = 200, translationX = - 300, translationY = 0,
                velocityX = 0, velocityY = 0\<rparr> :: pan_event"
  have unlocked: "\<not> isGestureLocked ?p (activePagers ?s)"
    by (simp add: isGestureLocked_def onLayout_def mount_def)
  have on_axis: "\<not> (\<bar>pan_crossAxisTranslate ?p ?evt\<bar> > 10
                     \<and> \<bar>pan_crossAxisTranslate ?p ?evt\<bar> > \<bar>pan_evtTranslate ?p ?evt\<bar>)"
    by (simp add: pan_crossAxisTranslate_def pan_evtTranslate_def default_props_def)
  have b: "bouncePct ?p = 3 / 10" by simp
  have ps: "pageSize ?p ?s = 300"
    by (simp add: pageSize_def onLayout_def mount_def default_props_def)
  have page: "(3 :: real) = real_of_int (initialIndex ?p) - (startTranslate ?s + pan_evtTranslate ?p ?evt) / 300"
    by (simp add: pan_evtTranslate_def default_props_def)
  have out: "\<not> (ge_minIndex 3 (minIndex ?p) \<and> le_maxIndex 3 (maxIndex ?p))"
    by (simp add: le_maxIndex_def)
  from onUpdate_bounce_linear [OF unlocked on_axis b ps page out]
  obtain s' ref where "onUpdate ?p ?evt ?s = Some s'"
    and "if lt_minIndex 3 (minIndex ?p) then minIndex ?p = Some ref \<and> 3 < ref
         else maxIndex ?p = Some ref \<and> ref < 3"
    and "translate s' - (real_of_int (initialIndex ?p) - ref) * 300 = 90 * (ref - 3)"
    by blast
  then show ?thesis
    by (simp add: lt_minIndex_def default_props_def)
qed

section \<open>Commit loop\<close>

lemma js_round_mono: "x \<le> y \<Longrightarrow> js_round x \<le> js_round y"
  by (simp add: js_round_def floor_mono)

lemma js_round_step: "y \<le> x + 1 \<Longrightarrow> js_round y \<le> js_round x + 1"
proof -
  assume "y \<le> x + 1"
  then have "js_round y \<le> js_round (x + 1)" by (rule js_round_mono)
  also have "js_round (x + 1) = js_round x + 1"
  proof -
    have "x + 1 + 1 / 2 = (x + 1 / 2) + 1" by simp
    then show ?thesis unfolding js_round_def by (simp only: one_add_floor)
  qed
  finally show ?thesis .
qed

lemma js_round_ties: "js_round (1 / 2) = 1" "js_round (- 1 / 2) = 0" "js_round (- 3 / 2) = - 1"
proof -
  have "\<lfloor>- 1 :: real\<rfloor> = - 1" by linarith
  then show "js_round (1 / 2) = 1" "js_round (- 1 / 2) = 0" "js_round (- 3 / 2) = - 1"
    by (simp_all add: js_round_def)
qed

text \<open>One run of the reaction: the call it makes, and what it remembers.\<close>

lemma reaction_pageChanges:
  "pageChanges (reaction s) =
     pageChanges s @ (if prevRounded s = Some (js_round (pageAnim s)) then [] else [js_round (pageAnim s)])"
  by (auto simp: reaction_def onPageChangeInternal_def Let_def)

lemma reaction_prevRounded: "prevRounded (reaction s) = Some (js_round (pageAnim s))"
  by (simp add: reaction_def Let_def)

lemma reaction_curIndex:
  "curIndex (reaction s) =
     (if prevRounded s = Some (js_round (pageAnim s)) then curIndex s else js_round (pageAnim s))"
  by (auto simp: reaction_def onPageChangeInternal_def Let_def)

text \<open>
  The calls made while a sequence of positions is observed: the rounded positions
  with adjacent repetitions removed, without the value the reaction had seen before.
\<close>

lemma observe_pageChanges:
  "pageChanges (observe s xs) =
     pageChanges s @
       (case prevRounded s of
          None \<Rightarrow> remdups_adj (map js_round xs)
        | Some r \<Rightarrow> tl (remdups_adj (r # map js_round xs)))"
proof (induction xs arbitrary: s)
  case Nil
  then show ?case by (simp split: option.split)
next
  case (Cons x xs)
  let ?s1 = "reaction (s\<lparr>pageAnim := x\<rparr>)"
  have prev1: "prevRounded ?s1 = Some (js_round x)" by (simp add: reaction_prevRounded)
  have calls1: "pageChanges ?s1 =
      pageChanges s @ (if prevRounded s = Some (js_round x) then [] else [js_round x])"
    by (simp add: reaction_pageChanges)
  have "pageChanges (observe s (x # xs)) = pageChanges (observe ?s1 xs)" by simp
  also have "\<dots> = pageChanges ?s1 @ tl (remdups_adj (js_round x # map js_round xs))"
    by (simp add: Cons.IH prev1)
  also have "\<dots> = pageChanges s @
       (case prevRounded s of
          None \<Rightarrow> remdups_adj (map js_round (x # xs))
        | Some r \<Rightarrow> tl (remdups_adj (r # map js_round (x # xs))))"
    by (cases "prevRounded s") (auto simp: calls1)
  finally show ?case .
qed

lemma remdups_adj_strict_up: "sorted rs \<Longrightarrow> sorted_wrt (<) (remdups_adj (rs :: int list))"
  by (induction rs rule: remdups_adj.induct) (auto simp: less_le)

lemma remdups_adj_strict_down:
  "sorted_wrt (\<lambda>a b. b \<le> a) rs \<Longrightarrow> sorted_wrt (\<lambda>a b. b < a) (remdups_adj (rs :: int list))"
  by (induction rs rule: remdups_adj.induct) (auto simp: less_le)

lemma remdups_adj_upto:
  "successively (\<lambda>a b. a \<le> b \<and> b \<le> a + 1) (r # rs) \<Longrightarrow>
   remdups_adj (r # rs) = [r .. last (r # rs :: int list)]"
proof (induction rs arbitrary: r)
  case Nil
  then show ?case by simp
next
  case (Cons r' rs)
  then have step: "r \<le> r'" "r' \<le> r + 1" and rest: "successively (\<lambda>a b. a \<le> b \<and> b \<le> a + 1) (r' # rs)"
    by simp_all
  from Cons.IH [OF rest] have ih: "remdups_adj (r' # rs) = [r' .. last (r' # rs)]" .
  show ?case
  proof (cases "r' = r")
    case True
    then show ?thesis using ih by simp
  next
    case False
    with step have r': "r' = r + 1" by simp
    have "r' \<le> last (r' # rs)"
      using ih by (metis remdups_adj_Nil_iff list.distinct(1) upto_Nil2 not_le)
    then have "[r .. last (r' # rs)] = r # [r' .. last (r' # rs)]"
      using r' by (simp add: upto_rec1)
    then show ?thesis using ih False by simp
  qed
qed

lemma remdups_adj_downto:
  "successively (\<lambda>a b. b \<le> a \<and> a \<le> b + 1) (r # rs) \<Longrightarrow>
   remdups_adj (r # rs) = rev [last (r # rs :: int list) .. r]"
proof (induction rs arbitrary: r)
  case Nil
  then show ?case by simp
next
  case (Cons r' rs)
  then have step: "r' \<le> r" "r \<le> r' + 1" and rest: "successively (\<lambda>a b. b \<le> a \<and> a \<le> b + 1) (r' # rs)"
    by simp_all
  from Cons.IH [OF rest] have ih: "remdups_adj (r' # rs) = rev [last (r' # rs) .. r']" .
  show ?case
  proof (cases "r' = r")
    case True
    then show ?thesis using ih by simp
  next
    case False
    with step have r': "r = r' + 1" by simp
    have "last (r' # rs) \<le> r'"
      using ih by (metis remdups_adj_Nil_iff list.distinct(1) upto_Nil2 not_le rev_is_Nil_conv)
    then have "[last (r' # rs) .. r] = [last (r' # rs) .. r'] @ [r]"
      using r' by (simp add: upto_rec2)
    then show ?thesis using ih False by simp
  qed
qed

lemma sorted_js_round: "sorted xs \<Longrightarrow> sorted (map js_round xs)"
  by (simp add: sorted_map) (erule sorted_wrt_mono_rel [rotated], simp add: js_round_mono)

lemma sorted_down_js_round:
  "sorted_wrt (\<lambda>a b. b \<le> a) xs \<Longrightarrow> sorted_wrt (\<lambda>a b. b \<le> a) (map js_round xs)"
  by (simp add: sorted_wrt_map) (erule sorted_wrt_mono_rel [rotated], simp add: js_round_mono)

lemma smooth_up_js_round:
  "successively (\<lambda>a b. a \<le> b \<and> b \<le> a + 1) xs \<Longrightarrow>
   successively (\<lambda>a b. a \<le> b \<and> b \<le> a + 1) (map js_round xs)"
  by (simp add: successively_map)
     (erule successively_mono, simp add: js_round_mono js_round_step)

lemma smooth_down_js_round:
  "successively (\<lambda>a b. b \<le> a \<and> a \<le> b + 1) xs \<Longrightarrow>
   successively (\<lambda>a b. b \<le> a \<and> a \<le> b + 1) (map js_round xs)"
  by (simp add: successively_map)
     (erule successively_mono, simp add: js_round_mono js_round_step)

text \<open>
  C7. The reaction has seen the position \<open>x\<close> and then observes the positions
  \<open>xs\<close>. The calls of the page-change callback it adds are the rounded positions
  in the order observed, a call being made exactly when the rounded position differs
  from the one seen just before. For a sweep that never decreases the calls are
  strictly increasing (each value once, in crossing order) and are exactly the
  rounded positions other than that of \<open>x\<close>; likewise, strictly decreasing, for a
  sweep that never increases. When successive positions are at most one page apart,
  no integer is skipped: the calls are the consecutive integers from the one after
  (before) the rounded \<open>x\<close> to the rounded last position. A position that rounds
  as the one before makes no call.
\<close>

theorem reaction_monotonic_sweep:
  assumes seen: "prevRounded s = Some (js_round x)"
  shows "\<exists>new. pageChanges (observe s xs) = pageChanges s @ new
      \<and> new = tl (remdups_adj (map js_round (x # xs)))
      \<and> (sorted (x # xs) \<longrightarrow>
            sorted_wrt (<) new \<and> distinct new \<and> set new = js_round ` set xs - {js_round x})
      \<and> (sorted_wrt (\<lambda>a b. b \<le> a) (x # xs) \<longrightarrow>
            sorted_wrt (\<lambda>a b. b < a) new \<and> distinct new \<and> set new = js_round ` set xs - {js_round x})
      \<and> (successively (\<lambda>a b. a \<le> b \<and> b \<le> a + 1) (x # xs) \<longrightarrow>
            new = [js_round x + 1 .. js_round (last (x # xs))])
      \<and> (successively (\<lambda>a b. b \<le> a \<and> a \<le> b + 1) (x # xs) \<longrightarrow>
            new = rev [js_round (last (x # xs)) .. js_round x - 1])
      \<and> (\<forall>y. js_round y = js_round x \<longrightarrow> pageChanges (observe s [y]) = pageChanges s)"
proof -
  define rs where "rs = map js_round (x # xs)"
  define new where "new = tl (remdups_adj rs)"
  have rs_Cons: "rs = js_round x # map js_round xs" by (simp add: rs_def)
  have calls: "pageChanges (observe s xs) = pageChanges s @ new"
    by (simp add: observe_pageChanges seen new_def rs_Cons)
  have whole: "remdups_adj rs = js_round x # new"
    by (simp add: new_def rs_Cons)
  have up: "sorted_wrt (<) new \<and> distinct new \<and> set new = js_round ` set xs - {js_round x}"
    if "sorted (x # xs)"
  proof -
    from that have "sorted rs" unfolding rs_def by (rule sorted_js_round)
    then have strict: "sorted_wrt (<) (js_round x # new)"
      using remdups_adj_strict_up [of rs] whole by simp
    then have "set new = set (js_round x # new) - {js_round x}" by auto
    also have "set (js_round x # new) = set rs" using whole by (metis remdups_adj_set)
    finally have "set new = js_round ` set xs - {js_round x}" by (auto simp: rs_Cons)
    moreover from strict have "sorted_wrt (<) new" by simp
    moreover from this have "distinct new" by (simp add: strict_sorted_iff)
    ultimately show ?thesis by blast
  qed
  have down: "sorted_wrt (\<lambda>a b. b < a) new \<and> distinct new \<and> set new = js_round ` set xs - {js_round x}"
    if "sorted_wrt (\<lambda>a b. b \<le> a) (x # xs)"
  proof -
    from that have "sorted_wrt (\<lambda>a b. b \<le> a) rs" unfolding rs_def by (rule sorted_down_js_round)
    then have strict: "sorted_wrt (\<lambda>a b. b < a) (js_round x # new)"
      using remdups_adj_strict_down [of rs] whole by simp
    then have "set new = set (js_round x # new) - {js_round x}" by auto
    also have "set (js_round x # new) = set rs" using whole by (metis remdups_adj_set)
    finally have "set new = js_round ` set xs - {js_round x}" by (auto simp: rs_Cons)
    moreover from strict have dn: "sorted_wrt (\<lambda>a b. b < a) new" by simp
    moreover have "distinct new"
      using dn by (induction new) auto
    ultimately show ?thesis by blast
  qed
  have last_rs: "last rs = js_round (last (x # xs))"
    unfolding rs_def by (simp add: last_map)
  have smooth_up: "new = [js_round x + 1 .. js_round (last (x # xs))]"
    if "successively (\<lambda>a b. a \<le> b \<and> b \<le> a + 1) (x # xs)"
  proof -
    from that have "successively (\<lambda>a b. a \<le> b \<and> b \<le> a + 1) (js_round x # map js_round xs)"
      using smooth_up_js_round [of "x # xs"] by simp
    from remdups_adj_upto [OF this]
    have eq: "js_round x # new = [js_round x .. js_round (last (x # xs))]"
      using whole last_rs by (simp add: rs_Cons)
    then have "js_round x \<le> js_round (last (x # xs))"
      by (metis list.distinct(1) upto_Nil2 not_le)
    then have "[js_round x .. js_round (last (x # xs))]
                 = js_round x # [js_round x + 1 .. js_round (last (x # xs))]"
      by (rule upto_rec1)
    with eq show ?thesis by simp
  qed
  have smooth_down: "new = rev [js_round (last (x # xs)) .. js_round x - 1]"
    if "successively (\<lambda>a b. b \<le> a \<and> a \<le> b + 1) (x # xs)"
  proof -
    from that have "successively (\<lambda>a b. b \<le> a \<and> a \<le> b + 1) (js_round x # map js_round xs)"
      using smooth_down_js_round [of "x # xs"] by simp
    from remdups_adj_downto [OF this]
    have eq: "js_round x # new = rev [js_round (last (x # xs)) .. js_round x]"
      using whole last_rs by (simp add: rs_Cons)
    then have "js_round (last (x # xs)) \<le> js_round x"
      by (metis list.distinct(1) upto_Nil2 not_le rev_is_Nil_conv)
    then have "[js_round (last (x # xs)) .. js_round x]
                 = [js_round (last (x # xs)) .. js_round x - 1] @ [js_round x]"
      by (rule upto_rec2)
    with eq show ?thesis by simp
  qed
  have same: "\<forall>y. js_round y = js_round x \<longrightarrow> pageChanges (observe s [y]) = pageChanges s"
    by (simp add: reaction_pageChanges seen)
  from calls up down smooth_up smooth_down same show ?thesis
    unfolding new_def rs_def by blast
qed

text \<open>
  Positions from page 0 to page 5 in steps of half a page, observed after the mount
  of a default pager (whose first reaction reports the initial page 0): the calls
  added are 1, 2, 3, 4, 5.
\<close>

theorem reaction_monotonic_sweep_witness:
  "pageChanges (reaction (mount default_props [])) = [0]
   \<and> pageChanges (observe (reaction (mount default_props []))
        [1 / 2, 1, 3 / 2, 2, 5 / 2, 3, 7 / 2, 4, 9 / 2, 5]) = [0] @ [1, 2, 3, 4, 5]"
proof -
  let ?s = "reaction (mount default_props [])"
  let ?xs = "[1 / 2, 1, 3 / 2, 2, 5 / 2, 3, 7 / 2, 4, 9 / 2, 5] :: real list"
  have r0: "js_round 0 = 0" and r5: "js_round 5 = 5" by (simp_all add: js_round_def)
  have seen: "prevRounded ?s = Some (js_round 0)"
    by (simp add: reaction_prevRounded mount_def default_props_def)
  have first: "pageChanges ?s = [0]"
    by (simp add: reaction_pageChanges mount_def default_props_def r0)
  have smooth: "successively (\<lambda>a b. a \<le> b \<and> b \<le> a + 1) (0 # ?xs)" by simp
  from reaction_monotonic_sweep [OF seen, of ?xs] obtain new where
    calls: "pageChanges (observe ?s ?xs) = pageChanges ?s @ new"
    and consecutive: "successively (\<lambda>a b. a \<le> b \<and> b \<le> a + 1) (0 # ?xs) \<longrightarrow>
            new = [js_round 0 + 1 .. js_round (last (0 # ?xs))]"
    by (elim exE conjE) (rule that, assumption+)
  from consecutive smooth have "new = [js_round 0 + 1 .. js_round (last (0 # ?xs))]" ..
  with calls
  have "pageChanges (observe ?s ?xs) = pageChanges ?s @ [js_round 0 + 1 .. js_round (last (0 # ?xs))]"
    by (simp only:)
  also have "[js_round 0 + 1 .. js_round (last (0 # ?xs))] = [1, 2, 3, 4, 5]"
    by (simp add: r0 r5 upto.simps)
  finally show ?thesis using first by simp
qed

text \<open>
  The same for positions that come from \<open>translate\<close>: with a page size that is not
  zero, driving \<open>translate\<close> through the values \<open>ts\<close> is observing the positions
  \<open>initialIndex - t / pageSize\<close>.
\<close>

lemma reaction_translate:
  "reaction (s\<lparr>translate := t, pageAnim := a\<rparr>) = (reaction (s\<lparr>pageAnim := a\<rparr>))\<lparr>translate := t\<rparr>"
  by (simp add: reaction_def onPageChangeInternal_def Let_def)

lemma observe_translate: "observe (s\<lparr>translate := t\<rparr>) xs = (observe s xs)\<lparr>translate := t\<rparr>"
  by (induction xs arbitrary: s) (simp_all add: reaction_translate)

lemma drive_observe:
  "pageSize p s \<noteq> 0 \<Longrightarrow>
   drive p s ts
     = Some ((observe s (map (\<lambda>t. real_of_int (initialIndex p) - t / pageSize p s) ts))
               \<lparr>translate := last (translate s # ts)\<rparr>)"
proof (induction ts arbitrary: s)
  case Nil
  then show ?case by simp
next
  case (Cons t ts)
  let ?x = "real_of_int (initialIndex p) - t / pageSize p s"
  let ?s1 = "reaction (s\<lparr>pageAnim := ?x\<rparr>)"
  have size: "pageSize p (s\<lparr>translate := t\<rparr>) = pageSize p s" by (simp add: pageSize_def)
  have derived: "derive_pageAnim p (s\<lparr>translate := t\<rparr>) = Some (s\<lparr>translate := t, pageAnim := ?x\<rparr>)"
    using Cons.prems by (simp add: derive_pageAnim_after_layout size)
  have step: "reaction (s\<lparr>translate := t, pageAnim := ?x\<rparr>) = ?s1\<lparr>translate := t\<rparr>"
    by (rule reaction_translate)
  have size1: "pageSize p (?s1\<lparr>translate := t\<rparr>) = pageSize p s"
    by (simp add: reaction_def onPageChangeInternal_def Let_def pageSize_def)
  then have "pageSize p (?s1\<lparr>translate := t\<rparr>) \<noteq> 0" using Cons.prems by simp
  from Cons.IH [OF this]
  have "drive p (?s1\<lparr>translate := t\<rparr>) ts
     = Some ((observe (?s1\<lparr>translate := t\<rparr>)
                (map (\<lambda>t. real_of_int (initialIndex p) - t / pageSize p s) ts))
               \<lparr>translate := last (t # ts)\<rparr>)"
    by (simp only: size1) simp
  then show ?case
    by (simp add: derived step observe_translate)
qed

lemma drive_page_0_to_5:
  "map_option pageChanges
     (drive default_props (reaction (onLayout 300 600 (mount default_props [])))
        [- 100, - 200, - 300, - 400, - 500, - 600, - 700, - 800, - 900, - 1000,
         - 1100, - 1200, - 1300, - 1400, - 1500])
     = Some [0, 1, 2, 3, 4, 5]"
  by (simp add: derive_pageAnim_def js_div_def pageSize_def reaction_def onPageChangeInternal_def
        onLayout_def mount_def default_props_def js_round_def Let_def)

end
